theory Spec2Isabelle
  imports Main
begin

section \<open>Strings\<close>

text \<open>
  Go strings are byte sequences; they are modelled as \<open>string\<close> (a list of 8-bit
  characters).  \<open>strings.HasPrefix\<close> and \<open>strings.TrimPrefix\<close> are the two library
  functions the stream reader uses.
\<close>

definition HasPrefix :: "string \<Rightarrow> string \<Rightarrow> bool" where
  "HasPrefix s p = (take (length p) s = p)"

definition TrimPrefix :: "string \<Rightarrow> string \<Rightarrow> string" where
  "TrimPrefix s p = (if HasPrefix s p then drop (length p) s else s)"

fun digits_of :: "nat \<Rightarrow> string" where
  "digits_of n =
     (if n < 10 then [char_of (48 + n)]
      else digits_of (n div 10) @ [char_of (48 + n mod 10)])"

declare digits_of.simps [simp del]

definition Sprint_d :: "int \<Rightarrow> string" where
  \<comment> \<open>the verb \<open>%d\<close> of package fmt\<close>
  "Sprint_d i = (if i < 0 then CHR ''-'' # digits_of (nat (- i)) else digits_of (nat i))"

section \<open>The stream transport (package llm)\<close>

subsection \<open>Messages and errors\<close>

text \<open>
  The text of an error of the Go libraries (\<open>err.Error()\<close>) stands for the error.
\<close>

type_synonym goerr = string

text \<open>
  The errors that \<open>StreamGenerate\<close> builds with \<open>fmt.Errorf\<close>, one constructor for each
  format string, and \<open>Error_text\<close> the string that \<open>Err.Error()\<close> returns.
\<close>

datatype stream_error =
    MarshalFailed goerr
  | RequestFailed goerr
  | HTTPFailed goerr
  | StatusFailed int string
  | UnmarshalFailed goerr string
  | APIError string
  | ReadFailed goerr

fun Error_text :: "stream_error \<Rightarrow> string" where
  "Error_text (MarshalFailed e) = ''failed to marshal stream request: '' @ e"
| "Error_text (RequestFailed e) = ''failed to created stream HTTP request: '' @ e"
| "Error_text (HTTPFailed e) = ''stream HTTP request failed: '' @ e"
| "Error_text (StatusFailed code body) =
     ''API stream request failed with status '' @ Sprint_d code @ '': '' @ body"
| "Error_text (UnmarshalFailed e js) =
     ''error unmarshalling stream chunk: '' @ e @ '' (data: '' @ js @ '')''"
| "Error_text (APIError m) = ''API error in stream chunk: '' @ m"
| "Error_text (ReadFailed e) = ''error reading stream: '' @ e"

text \<open>The three message types that the transport sends on the stream channel.\<close>

datatype stream_msg =
    StreamChunkMsg string
  | StreamEndMsg string
  | StreamErrorMsg stream_error

fun is_terminal :: "stream_msg \<Rightarrow> bool" where
  "is_terminal (StreamChunkMsg _) = False"
| "is_terminal (StreamEndMsg _) = True"
| "is_terminal (StreamErrorMsg _) = True"

subsection \<open>The decoded SSE data event\<close>

datatype OpenRouterStreamDelta =
  OpenRouterStreamDelta (Content_delta: string)

datatype OpenRouterStreamChoice =
  OpenRouterStreamChoice (Delta: OpenRouterStreamDelta) (FinishReason: "string option")

datatype OpenRouterResponseError =
  OpenRouterResponseError (Message: string)

datatype OpenRouterStreamChunk =
  OpenRouterStreamChunk (Choices: "OpenRouterStreamChoice list")
                        (Error: "OpenRouterResponseError option")

text \<open>
  \<open>json.Unmarshal\<close> into an \<open>OpenRouterStreamChunk\<close> is a function from the payload to
  an error or a chunk.  The reader is defined for any such function.
\<close>

type_synonym unmarshal = "string \<Rightarrow> goerr + OpenRouterStreamChunk"

subsection \<open>Decoding the payload\<close>

text \<open>
  \<open>json.Unmarshal\<close> belongs to the Go library, not to this program.  \<open>Unmarshal\<close> below
  follows the documentation of package encoding/json for the target type
  \<open>OpenRouterStreamChunk\<close>: the payload must be one well-formed JSON value; an object
  sets the fields whose names match its keys, case-insensitively; other keys are
  skipped; a key that comes twice is decoded twice into the same field; \<open>null\<close> leaves
  a string or a struct as it is and sets a slice or a pointer to nil; a value of the
  wrong kind for its field is a type error, reported after the decoding.  The text of
  the library's errors is not reproduced, nor its limit on the nesting depth.  The
  properties of the reader below hold for every decoder; this one serves where a
  concrete payload is decoded.
\<close>

text \<open>
  A JSON value.  Numbers are checked against the grammar and not kept: no field of the
  target takes one.
\<close>

datatype json =
    JNull
  | JBool bool
  | JNumber
  | JString string
  | JArray "json list"
  | JObject "(string \<times> json) list"

text \<open>
  Bytes as numbers, the white space and the digits of JSON, the hexadecimal digits of a
  \<open>\u\<close> escape, and the UTF-8 encoding of a code point (\<open>utf8.EncodeRune\<close>).
\<close>

definition byte :: "char \<Rightarrow> nat" where
  "byte c = of_char c"

definition isSpace_json :: "char \<Rightarrow> bool" where
  "isSpace_json c = (byte c = 0x20 \<or> byte c = 0x09 \<or> byte c = 0x0A \<or> byte c = 0x0D)"

definition skip_ws :: "string \<Rightarrow> string" where
  "skip_ws s = dropWhile isSpace_json s"

definition is_digit :: "char \<Rightarrow> bool" where
  "is_digit c = (48 \<le> byte c \<and> byte c \<le> 57)"

definition hex_val :: "char \<Rightarrow> nat option" where
  "hex_val c =
     (let b = byte c in
      if 48 \<le> b \<and> b \<le> 57 then Some (b - 48)
      else if 97 \<le> b \<and> b \<le> 102 then Some (b - 87)
      else if 65 \<le> b \<and> b \<le> 70 then Some (b - 55)
      else None)"

fun getu4 :: "string \<Rightarrow> (nat \<times> string) option" where
  "getu4 (a # b # c # d # rest) =
     (case (hex_val a, hex_val b, hex_val c, hex_val d) of
        (Some x, Some y, Some z, Some w) \<Rightarrow> Some (((x * 16 + y) * 16 + z) * 16 + w, rest)
      | _ \<Rightarrow> None)"
| "getu4 _ = None"

definition EncodeRune :: "nat \<Rightarrow> string" where
  "EncodeRune r =
     (if r < 0x80 then [char_of r]
      else if r < 0x800 then [char_of (0xC0 + r div 64), char_of (0x80 + r mod 64)]
      else if r < 0x10000 then
        [char_of (0xE0 + r div 4096), char_of (0x80 + r div 64 mod 64), char_of (0x80 + r mod 64)]
      else
        [char_of (0xF0 + r div 262144), char_of (0x80 + r div 4096 mod 64),
         char_of (0x80 + r div 64 mod 64), char_of (0x80 + r mod 64)])"

definition ReplacementChar :: nat where
  "ReplacementChar = 0xFFFD"

definition cont :: "char \<Rightarrow> bool" where
  "cont c = (0x80 \<le> byte c \<and> byte c \<le> 0xBF)"

text \<open>
  The length of the well-formed UTF-8 sequence at the head of a string, 0 when there is
  none: the library writes U+FFFD for a byte that starts none.
\<close>

fun utf8_len :: "string \<Rightarrow> nat" where
  "utf8_len [] = 0"
| "utf8_len (a # s) =
     (let x = byte a in
      if x < 0x80 then 1
      else if 0xC2 \<le> x \<and> x \<le> 0xDF then
        (case s of b # _ \<Rightarrow> if cont b then 2 else 0 | _ \<Rightarrow> 0)
      else if 0xE0 \<le> x \<and> x \<le> 0xEF then
        (case s of b # c # _ \<Rightarrow>
           if (if x = 0xE0 then 0xA0 \<le> byte b \<and> byte b \<le> 0xBF
               else if x = 0xED then 0x80 \<le> byte b \<and> byte b \<le> 0x9F
               else cont b) \<and> cont c then 3 else 0
         | _ \<Rightarrow> 0)
      else if 0xF0 \<le> x \<and> x \<le> 0xF4 then
        (case s of b # c # d # _ \<Rightarrow>
           if (if x = 0xF0 then 0x90 \<le> byte b \<and> byte b \<le> 0xBF
               else if x = 0xF4 then 0x80 \<le> byte b \<and> byte b \<le> 0x8F
               else cont b) \<and> cont c \<and> cont d then 4 else 0
         | _ \<Rightarrow> 0)
      else 0)"

text \<open>
  The body of a string literal, after the opening quote: the decoded string and the
  rest of the input after the closing quote.  A surrogate escape that is not followed
  by its partner becomes U+FFFD.  The first argument bounds the number of steps; the
  callers pass the length of the input.
\<close>

fun unquote :: "nat \<Rightarrow> string \<Rightarrow> string \<Rightarrow> (string \<times> string) option" where
  "unquote 0 s acc = None"
| "unquote (Suc n) [] acc = None"
| "unquote (Suc n) (c # cs) acc =
     (if c = CHR 0x22 then Some (acc, cs)
      else if c = CHR 0x5C then
        (case cs of
           [] \<Rightarrow> None
         | e # cs' \<Rightarrow>
             if e = CHR 0x22 \<or> e = CHR 0x5C \<or> e = CHR ''/'' then unquote n cs' (acc @ [e])
             else if e = CHR ''b'' then unquote n cs' (acc @ [CHR 0x08])
             else if e = CHR ''f'' then unquote n cs' (acc @ [CHR 0x0C])
             else if e = CHR ''n'' then unquote n cs' (acc @ [CHR 0x0A])
             else if e = CHR ''r'' then unquote n cs' (acc @ [CHR 0x0D])
             else if e = CHR ''t'' then unquote n cs' (acc @ [CHR 0x09])
             else if e = CHR ''u'' then
               (case getu4 cs' of
                  None \<Rightarrow> None
                | Some (rr, r1) \<Rightarrow>
                    if 0xD800 \<le> rr \<and> rr < 0xE000 then
                      (case r1 of
                         b1 # u1 # r2 \<Rightarrow>
                           (case (if b1 = CHR 0x5C \<and> u1 = CHR ''u'' then getu4 r2 else None) of
                              Some (rr1, r3) \<Rightarrow>
                                if rr < 0xDC00 \<and> 0xDC00 \<le> rr1 \<and> rr1 < 0xE000 then
                                  unquote n r3
                                    (acc @ EncodeRune ((rr - 0xD800) * 1024 + (rr1 - 0xDC00) + 0x10000))
                                else unquote n r1 (acc @ EncodeRune ReplacementChar)
                            | None \<Rightarrow> unquote n r1 (acc @ EncodeRune ReplacementChar))
                       | _ \<Rightarrow> unquote n r1 (acc @ EncodeRune ReplacementChar))
                    else unquote n r1 (acc @ EncodeRune rr))
             else None)
      else if byte c < 0x20 then None
      else if byte c < 0x80 then unquote n cs (acc @ [c])
      else
        (let k = utf8_len (c # cs) in
         if k = 0 then unquote n cs (acc @ EncodeRune ReplacementChar)
         else unquote n (drop k (c # cs)) (acc @ take k (c # cs))))"

definition digits :: "string \<Rightarrow> string \<times> string" where
  "digits s = (takeWhile is_digit s, dropWhile is_digit s)"

text \<open>A number literal: the rest of the input after it.\<close>

definition number :: "string \<Rightarrow> string option" where
  "number s =
     (let s1 = (case s of c # r \<Rightarrow> if c = CHR ''-'' then r else s | [] \<Rightarrow> s);
          (ds, s2) = digits s1
      in if ds = [] \<or> (hd ds = CHR ''0'' \<and> length ds > 1) then None
         else
           (case (case s2 of
                    c # r \<Rightarrow>
                      if c = CHR ''.'' then
                        (case digits r of (fs, r') \<Rightarrow> if fs = [] then None else Some r')
                      else Some s2
                  | [] \<Rightarrow> Some s2) of
              None \<Rightarrow> None
            | Some s3 \<Rightarrow>
                (case s3 of
                   c # r \<Rightarrow>
                     if c = CHR ''e'' \<or> c = CHR ''E'' then
                       (let r1 = (case r of d # r' \<Rightarrow> if d = CHR ''+'' \<or> d = CHR ''-'' then r' else r
                                  | [] \<Rightarrow> r)
                        in case digits r1 of (es, r2) \<Rightarrow> if es = [] then None else Some r2)
                     else Some s3
                 | [] \<Rightarrow> Some s3)))"

text \<open>
  A value, the elements of an array after its bracket, the members of an object after
  its brace; each returns what it has read and the rest of the input.  The first
  argument bounds the depth of the calls; \<open>parse_json\<close> passes the length of the
  payload and one more, and refuses input after the value.
\<close>

fun parse_value :: "nat \<Rightarrow> string \<Rightarrow> (json \<times> string) option"
and parse_elems :: "nat \<Rightarrow> string \<Rightarrow> json list \<Rightarrow> (json list \<times> string) option"
and parse_members :: "nat \<Rightarrow> string \<Rightarrow> (string \<times> json) list \<Rightarrow> ((string \<times> json) list \<times> string) option"
where
  "parse_value 0 s = None"
| "parse_value (Suc n) s =
     (case skip_ws s of
        [] \<Rightarrow> None
      | c # cs \<Rightarrow>
          if c = CHR ''{'' then
            (case skip_ws cs of
               [] \<Rightarrow> None
             | d # r \<Rightarrow>
                 if d = CHR ''}'' then Some (JObject [], r)
                 else map_option (\<lambda>(ms, r'). (JObject ms, r')) (parse_members n (d # r) []))
          else if c = CHR ''['' then
            (case skip_ws cs of
               [] \<Rightarrow> None
             | d # r \<Rightarrow>
                 if d = CHR '']'' then Some (JArray [], r)
                 else map_option (\<lambda>(vs, r'). (JArray vs, r')) (parse_elems n (d # r) []))
          else if c = CHR 0x22 then
            map_option (\<lambda>(t, r). (JString t, r)) (unquote (length cs) cs [])
          else if take 4 (c # cs) = ''true'' then Some (JBool True, drop 4 (c # cs))
          else if take 5 (c # cs) = ''false'' then Some (JBool False, drop 5 (c # cs))
          else if take 4 (c # cs) = ''null'' then Some (JNull, drop 4 (c # cs))
          else map_option (\<lambda>r. (JNumber, r)) (number (c # cs)))"
| "parse_elems 0 s acc = None"
| "parse_elems (Suc n) s acc =
     (case parse_value n s of
        None \<Rightarrow> None
      | Some (v, r) \<Rightarrow>
          (case skip_ws r of
             [] \<Rightarrow> None
           | c # r' \<Rightarrow>
               if c = CHR '','' then parse_elems n r' (acc @ [v])
               else if c = CHR '']'' then Some (acc @ [v], r')
               else None))"
| "parse_members 0 s acc = None"
| "parse_members (Suc n) s acc =
     (case skip_ws s of
        [] \<Rightarrow> None
      | q # s1 \<Rightarrow>
          if q \<noteq> CHR 0x22 then None
          else
            (case unquote (length s1) s1 [] of
               None \<Rightarrow> None
             | Some (k, s2) \<Rightarrow>
                 (case skip_ws s2 of
                    [] \<Rightarrow> None
                  | c # s3 \<Rightarrow>
                      if c \<noteq> CHR '':'' then None
                      else
                        (case parse_value n s3 of
                           None \<Rightarrow> None
                         | Some (v, r) \<Rightarrow>
                             (case skip_ws r of
                                [] \<Rightarrow> None
                              | d # r' \<Rightarrow>
                                  if d = CHR '','' then parse_members n r' (acc @ [(k, v)])
                                  else if d = CHR ''}'' then Some (acc @ [(k, v)], r')
                                  else None)))))"

definition parse_json :: "string \<Rightarrow> json option" where
  "parse_json s =
     (case parse_value (Suc (length s)) s of
        None \<Rightarrow> None
      | Some (v, r) \<Rightarrow> if skip_ws r = [] then Some v else None)"

text \<open>
  Keys are compared after folding, as \<open>foldName\<close> of the library does: ASCII letters to
  upper case, and the two code points outside ASCII that fold to an ASCII letter,
  U+017F to \<open>S\<close> and U+212A to \<open>K\<close>.
\<close>

fun fold_key :: "string \<Rightarrow> string" where
  "fold_key [] = []"
| "fold_key (a # s) =
     (if 97 \<le> byte a \<and> byte a \<le> 122 then char_of (byte a - 32) # fold_key s
      else if byte a = 0xC5 \<and> take 1 s = [CHR 0xBF] then CHR ''S'' # fold_key (drop 1 s)
      else if byte a = 0xE2 \<and> take 2 s = [CHR 0x84, CHR 0xAA] then CHR ''K'' # fold_key (drop 2 s)
      else a # fold_key s)"

definition key_is :: "string \<Rightarrow> string \<Rightarrow> bool" where
  "key_is k name = (fold_key k = fold_key name)"

text \<open>
  Decoding a value into a field that already has a value; the flag records a type
  error.  An array decodes its elements into the elements that the slice already has,
  as far as they go.
\<close>

fun into_string :: "json \<Rightarrow> string \<times> bool \<Rightarrow> string \<times> bool" where
  "into_string (JString s) (old, bad) = (s, bad)"
| "into_string JNull (old, bad) = (old, bad)"
| "into_string _ (old, bad) = (old, True)"

fun into_string_ptr :: "json \<Rightarrow> string option \<times> bool \<Rightarrow> string option \<times> bool" where
  "into_string_ptr (JString s) (old, bad) = (Some s, bad)"
| "into_string_ptr JNull (old, bad) = (None, bad)"
| "into_string_ptr _ (old, bad) = (old, True)"

fun into_delta :: "json \<Rightarrow> OpenRouterStreamDelta \<times> bool \<Rightarrow> OpenRouterStreamDelta \<times> bool" where
  "into_delta (JObject ms) (old, bad) =
     foldl (\<lambda>(d, b) (k, v).
              if key_is k ''content''
              then (case into_string v (Content_delta d, b) of (c, b') \<Rightarrow> (OpenRouterStreamDelta c, b'))
              else (d, b))
           (old, bad) ms"
| "into_delta JNull (old, bad) = (old, bad)"
| "into_delta _ (old, bad) = (old, True)"

fun into_choice :: "json \<Rightarrow> OpenRouterStreamChoice \<times> bool \<Rightarrow> OpenRouterStreamChoice \<times> bool" where
  "into_choice (JObject ms) (old, bad) =
     foldl (\<lambda>(c, b) (k, v).
              if key_is k ''delta''
              then (case into_delta v (Delta c, b) of
                      (d, b') \<Rightarrow> (OpenRouterStreamChoice d (FinishReason c), b'))
              else if key_is k ''finish_reason''
              then (case into_string_ptr v (FinishReason c, b) of
                      (f, b') \<Rightarrow> (OpenRouterStreamChoice (Delta c) f, b'))
              else (c, b))
           (old, bad) ms"
| "into_choice JNull (old, bad) = (old, bad)"
| "into_choice _ (old, bad) = (old, True)"

definition zero_choice :: OpenRouterStreamChoice where
  "zero_choice = OpenRouterStreamChoice (OpenRouterStreamDelta []) None"

fun into_elems ::
  "json list \<Rightarrow> OpenRouterStreamChoice list \<Rightarrow> bool \<Rightarrow> OpenRouterStreamChoice list \<times> bool" where
  "into_elems [] old bad = ([], bad)"
| "into_elems (v # vs) old bad =
     (case into_choice v (case old of [] \<Rightarrow> zero_choice | c # _ \<Rightarrow> c, bad) of
        (c, b) \<Rightarrow> (case into_elems vs (tl old) b of (cs, b') \<Rightarrow> (c # cs, b')))"

fun into_choices ::
  "json \<Rightarrow> OpenRouterStreamChoice list \<times> bool \<Rightarrow> OpenRouterStreamChoice list \<times> bool" where
  "into_choices (JArray vs) (old, bad) = into_elems vs old bad"
| "into_choices JNull (old, bad) = ([], bad)"
| "into_choices _ (old, bad) = (old, True)"

fun into_error ::
  "json \<Rightarrow> OpenRouterResponseError option \<times> bool \<Rightarrow> OpenRouterResponseError option \<times> bool" where
  "into_error (JObject ms) (old, bad) =
     (case foldl (\<lambda>(m, b) (k, v). if key_is k ''message'' then into_string v (m, b) else (m, b))
                 (case old of None \<Rightarrow> [] | Some e \<Rightarrow> Message e, bad) ms of
        (m, b) \<Rightarrow> (Some (OpenRouterResponseError m), b))"
| "into_error JNull (old, bad) = (None, bad)"
| "into_error _ (old, bad) = (old, True)"

fun into_chunk :: "json \<Rightarrow> OpenRouterStreamChunk \<times> bool" where
  "into_chunk (JObject ms) =
     foldl (\<lambda>(c, b) (k, v).
              if key_is k ''choices''
              then (case into_choices v (Choices c, b) of
                      (cs, b') \<Rightarrow> (OpenRouterStreamChunk cs (Error c), b'))
              else if key_is k ''error''
              then (case into_error v (Error c, b) of
                      (e, b') \<Rightarrow> (OpenRouterStreamChunk (Choices c) e, b'))
              else (c, b))
           (OpenRouterStreamChunk [] None, False) ms"
| "into_chunk JNull = (OpenRouterStreamChunk [] None, False)"
| "into_chunk _ = (OpenRouterStreamChunk [] None, True)"

definition Unmarshal :: "string \<Rightarrow> goerr + OpenRouterStreamChunk" where
  "Unmarshal s =
     (case parse_json s of
        None \<Rightarrow> Inl ''invalid JSON''
      | Some v \<Rightarrow>
          (case into_chunk v of
             (c, bad) \<Rightarrow> if bad then Inl ''json: cannot unmarshal value into Go value'' else Inr c))"

subsection \<open>The response body and its scanner\<close>

text \<open>
  A response body delivers some bytes and then ends, with EOF (\<open>None\<close>) or with a read
  failure, which is taken to deliver no bytes of its own.  \<open>io.ReadAll\<close> returns the
  bytes (the code drops its error).
\<close>

record Body =
  bytes :: string
  read_err :: "goerr option"

definition ReadAll :: "Body \<Rightarrow> string" where
  "ReadAll b = bytes b"

text \<open>
  One call of \<open>scanner.Scan()\<close> that returns true is a pair: the line returned by
  \<open>scanner.Text()\<close>, and what \<open>scanner.Err()\<close> would return at that moment.  A run of
  the scanner is the list of these pairs and the value of \<open>scanner.Err()\<close> once
  \<open>Scan()\<close> has returned false.
\<close>

type_synonym scan_run = "(string \<times> goerr option) list \<times> goerr option"

definition dropCR :: "string \<Rightarrow> string" where
  "dropCR l = (if l \<noteq> [] \<and> last l = CHR 0x0D then butlast l else l)"

definition MaxScanTokenSize :: nat where
  "MaxScanTokenSize = 64 * 1024"

definition ErrTooLong :: goerr where
  "ErrTooLong = ''bufio.Scanner: token too long''"

text \<open>
  \<open>scan_from cur bs e\<close>: the scanner holds the unfinished line \<open>cur\<close>, the body still
  delivers \<open>bs\<close> and then ends with \<open>e\<close>.  The split function is \<open>bufio.ScanLines\<close>:
  a line ends at a newline, one trailing carriage return is dropped, and a last line
  without newline is returned if it is not empty.  A line that does not fit the buffer
  of \<open>MaxScanTokenSize\<close> bytes stops the scanner with \<open>ErrTooLong\<close>.  After a read
  failure the unfinished line is still returned, and \<open>Err()\<close> is already set then.
\<close>

fun scan_from :: "string \<Rightarrow> string \<Rightarrow> goerr option \<Rightarrow> scan_run" where
  "scan_from cur [] e =
     (if MaxScanTokenSize \<le> length cur then ([], Some ErrTooLong)
      else if cur = [] then ([], e)
      else ([(dropCR cur, e)], e))"
| "scan_from cur (c # bs) e =
     (if MaxScanTokenSize \<le> length cur then ([], Some ErrTooLong)
      else if c = CHR 0x0A then
        (case scan_from [] bs e of (steps, final) \<Rightarrow> ((dropCR cur, None) # steps, final))
      else scan_from (cur @ [c]) bs e)"

definition NewScanner :: "Body \<Rightarrow> scan_run" where
  "NewScanner b = scan_from [] (bytes b) (read_err b)"

subsection \<open>The reading loop\<close>

text \<open>
  How the \<open>for scanner.Scan()\<close> loop is left: by a \<open>return\<close> of the goroutine's function
  (after a \<open>StreamErrorMsg\<close>), or by \<open>break\<close> or the end of the scan; in the second case
  with the value of \<open>scanner.Err()\<close> at that moment and the text accumulated in
  \<open>fullResponseContent\<close>.
\<close>

datatype loop_exit = LoopReturn | LoopDone "goerr option" string

definition CHUNK_PREFIX :: string where
  "CHUNK_PREFIX = ''data: ''"

text \<open>
  \<open>scan_loop um steps final seen acc\<close> is the loop, started with the flag
  \<open>responseStreamingErrorSeen = seen\<close> and \<open>fullResponseContent = acc\<close>.  It returns the
  messages sent on \<open>msgChan\<close>, in order, and the way the loop was left.
\<close>

fun scan_loop ::
  "unmarshal \<Rightarrow> (string \<times> goerr option) list \<Rightarrow> goerr option \<Rightarrow> bool \<Rightarrow> string
     \<Rightarrow> stream_msg list \<times> loop_exit" where
  "scan_loop um [] final seen acc = ([], LoopDone final acc)"
| "scan_loop um ((line, pending) # rest) final seen acc =
     (if line = [] \<or> HasPrefix line '':'' then scan_loop um rest final seen acc
      else if HasPrefix line CHUNK_PREFIX then
        (let jsonDataStr = TrimPrefix line CHUNK_PREFIX in
         if jsonDataStr = ''[DONE]'' then ([], LoopDone pending acc)
         else
           (case um jsonDataStr of
              Inl err \<Rightarrow>
                if seen then ([StreamErrorMsg (UnmarshalFailed err jsonDataStr)], LoopReturn)
                else scan_loop um rest final True acc
            | Inr chunk \<Rightarrow>
                (case Error chunk of
                   Some e \<Rightarrow> ([StreamErrorMsg (APIError (Message e))], LoopReturn)
                 | None \<Rightarrow>
                     (case Choices chunk of
                        [] \<Rightarrow> scan_loop um rest final seen acc
                      | choice # _ \<Rightarrow>
                          (let content = Content_delta (Delta choice) in
                           if content \<noteq> [] then
                             (case scan_loop um rest final seen (acc @ content) of
                                (msgs, ex) \<Rightarrow> (StreamChunkMsg content # msgs, ex))
                           else scan_loop um rest final seen acc)))))
      else scan_loop um rest final seen acc)"

text \<open>
  The reader from the creation of the scanner to the end of the function: the loop with
  the flag unset and an empty builder, then the check of \<open>scanner.Err()\<close> and the
  \<open>StreamEndMsg\<close>.
\<close>

definition read_stream :: "unmarshal \<Rightarrow> scan_run \<Rightarrow> stream_msg list" where
  "read_stream um run =
     (case scan_loop um (fst run) (snd run) False [] of
        (msgs, LoopReturn) \<Rightarrow> msgs
      | (msgs, LoopDone (Some err) acc) \<Rightarrow> msgs @ [StreamErrorMsg (ReadFailed err)]
      | (msgs, LoopDone None acc) \<Rightarrow> msgs @ [StreamEndMsg acc])"

subsection \<open>StreamGenerate\<close>

text \<open>
  What the world does to one invocation: whether \<open>json.Marshal\<close> and
  \<open>http.NewRequestWithContext\<close> fail, and the outcome of \<open>httpClient.Do\<close>.

  The field \<open>marshal_err\<close> keeps the branch \<open>if err != nil\<close> after \<open>json.Marshal\<close> in
  the model.  The value that is marshalled is an \<open>OpenRouterRequest\<close>: two strings, a
  bool and a slice of structs of two strings.  \<open>json.Marshal\<close> returns an error for a
  channel, a function or a complex number, for an infinite or NaN float, for a cyclic
  value and for a failing \<open>Marshaler\<close>; a string that is not valid UTF-8 is encoded with
  replacement characters.  None of the failing cases can occur in an
  \<open>OpenRouterRequest\<close>, so \<open>marshal_err\<close> is \<open>None\<close> in every run of the program.
\<close>

record Response =
  StatusCode :: int
  Body :: Body

record world =
  marshal_err :: "goerr option"
  request_err :: "goerr option"
  do_result :: "goerr + Response"

text \<open>
  The result of \<open>StreamGenerate\<close> is the list of the messages that its goroutine sends on
  \<open>msgChan\<close>, in the order of the sends and each send taken as received, and the way the
  goroutine ends: by returning, or by a panic.  The deferred \<open>close(msgChan)\<close> runs in
  both cases, after the messages of the result.  The panic is the nil dereference
  \<open>req.Header.Set\<close> when \<open>http.NewRequestWithContext\<close> has failed and returned a nil
  request: the \<open>if err != nil\<close> before it sends a message and does not return.  The
  \<open>if err != nil\<close> after \<open>json.Marshal\<close> does not return either, and the request is
  then made with the nil \<open>jsonData\<close>.
\<close>

datatype goroutine_end = Returned | Panicked

definition StreamGenerate :: "unmarshal \<Rightarrow> world \<Rightarrow> stream_msg list \<times> goroutine_end" where
  "StreamGenerate um w =
     (let sent1 = (case marshal_err w of
                     Some err \<Rightarrow> [StreamErrorMsg (MarshalFailed err)]
                   | None \<Rightarrow> []) in
      case request_err w of
        Some err \<Rightarrow> (sent1 @ [StreamErrorMsg (RequestFailed err)], Panicked)
      | None \<Rightarrow>
          (case do_result w of
             Inl err \<Rightarrow> (sent1 @ [StreamErrorMsg (HTTPFailed err)], Returned)
           | Inr resp \<Rightarrow>
               if StatusCode resp \<noteq> 200 then
                 (sent1 @ [StreamErrorMsg (StatusFailed (StatusCode resp) (ReadAll (Body resp)))],
                  Returned)
               else (sent1 @ read_stream um (NewScanner (Body resp)), Returned)))"

subsection \<open>Kinds of lines\<close>

text \<open>
  The loop treats a line in one of five ways: it skips it, it stops at \<open>[DONE]\<close>, it
  fails to decode it, it finds an error in it, or it sends its text.  \<open>classify\<close> names
  the five; \<open>texts\<close> are the contents of the chunk messages of a list, \<open>line_texts\<close>
  those that a list of lines gives rise to.
\<close>

datatype line_kind = Skip | Done | Bad goerr string | ApiErr string | Text string

definition classify :: "unmarshal \<Rightarrow> string \<Rightarrow> line_kind" where
  "classify um line =
     (if line = [] \<or> HasPrefix line '':'' then Skip
      else if HasPrefix line CHUNK_PREFIX then
        (let jsonDataStr = TrimPrefix line CHUNK_PREFIX in
         if jsonDataStr = ''[DONE]'' then Done
         else
           (case um jsonDataStr of
              Inl err \<Rightarrow> Bad err jsonDataStr
            | Inr chunk \<Rightarrow>
                (case Error chunk of
                   Some e \<Rightarrow> ApiErr (Message e)
                 | None \<Rightarrow>
                     (case Choices chunk of
                        [] \<Rightarrow> Skip
                      | choice # _ \<Rightarrow>
                          if Content_delta (Delta choice) \<noteq> [] then Text (Content_delta (Delta choice))
                          else Skip))))
      else Skip)"

definition texts :: "stream_msg list \<Rightarrow> string list" where
  "texts msgs = concat (map (\<lambda>m. case m of StreamChunkMsg c \<Rightarrow> [c] | _ \<Rightarrow> []) msgs)"

definition line_texts :: "unmarshal \<Rightarrow> (string \<times> goerr option) list \<Rightarrow> string list" where
  "line_texts um xs = concat (map (\<lambda>x. case classify um (fst x) of Text c \<Rightarrow> [c] | _ \<Rightarrow> []) xs)"

text \<open>
  In terms of the line itself: the payload of a \<open>data: \<close> line; the lines that end the
  reading, by \<open>[DONE]\<close> or by an error in the chunk; the malformed lines, whose payload
  does not decode; and the quiet lines, which are none of these.  \<open>malformed_count\<close>
  counts the malformed lines of a response.
\<close>

definition data_payload :: "string \<Rightarrow> string option" where
  "data_payload line =
     (if HasPrefix line CHUNK_PREFIX then Some (TrimPrefix line CHUNK_PREFIX) else None)"

definition done_line :: "string \<Rightarrow> bool" where
  "done_line line = (data_payload line = Some ''[DONE]'')"

definition malformed_line :: "unmarshal \<Rightarrow> string \<Rightarrow> bool" where
  "malformed_line um line =
     (case data_payload line of
        None \<Rightarrow> False
      | Some js \<Rightarrow> js \<noteq> ''[DONE]'' \<and> isl (um js))"

definition api_error_line :: "unmarshal \<Rightarrow> string \<Rightarrow> bool" where
  "api_error_line um line =
     (case data_payload line of
        None \<Rightarrow> False
      | Some js \<Rightarrow>
          js \<noteq> ''[DONE]'' \<and> (case um js of Inl _ \<Rightarrow> False | Inr chunk \<Rightarrow> Error chunk \<noteq> None))"

definition quiet_line :: "unmarshal \<Rightarrow> string \<Rightarrow> bool" where
  "quiet_line um line = (\<not> done_line line \<and> \<not> malformed_line um line \<and> \<not> api_error_line um line)"

definition malformed_count :: "unmarshal \<Rightarrow> world \<Rightarrow> nat" where
  "malformed_count um w =
     (case do_result w of
        Inl _ \<Rightarrow> 0
      | Inr resp \<Rightarrow> length (filter (malformed_line um) (map fst (fst (NewScanner (Body resp))))))"

text \<open>
  Exactly one terminal message, and it is the last.
\<close>

definition one_terminal_last :: "stream_msg list \<Rightarrow> bool" where
  "one_terminal_last msgs =
     (msgs \<noteq> [] \<and> is_terminal (last msgs) \<and> list_all (\<lambda>m. \<not> is_terminal m) (butlast msgs))"

subsection \<open>Example responses\<close>

text \<open>
  A request that goes through with status 200 and a given body; the body of the
  specification's example; an invocation with a nil context, for which
  \<open>http.NewRequestWithContext\<close> fails; a body with an error chunk between two text
  chunks; a body with two malformed lines, and one with a single malformed line.
\<close>

definition world_200 :: "string \<Rightarrow> world" where
  "world_200 text =
     \<lparr>marshal_err = None, request_err = None,
      do_result = Inr \<lparr>StatusCode = 200, Body = \<lparr>bytes = text, read_err = None\<rparr>\<rparr>\<rparr>"

definition hello_body :: string where
  \<open>hello_body =
     ''data: {"choices":[{"delta":{"content":"Hel"}}]}\<newline>\<newline>data: {"choices":[{"delta":{"content":"lo"}}]}\<newline>\<newline>data: [DONE]\<newline>\<newline>''\<close>

definition nil_context_world :: world where
  "nil_context_world = (world_200 hello_body)\<lparr>request_err := Some ''net/http: nil Context''\<rparr>"

definition api_error_body :: string where
  \<open>api_error_body =
     ''data: {"choices":[{"delta":{"content":"Hel"}}]}\<newline>\<newline>data: {"error":{"message":"rate limited"}}\<newline>\<newline>data: {"choices":[{"delta":{"content":"lo"}}]}\<newline>\<newline>''\<close>

definition two_bad_body :: string where
  \<open>two_bad_body =
     ''data: {"choices"\<newline>data: {"choices":[{"delta":{"content":"Hel"}}]}\<newline>data: oops\<newline>data: {"choices":[{"delta":{"content":"lo"}}]}\<newline>''\<close>

definition one_bad_body :: string where
  \<open>one_bad_body =
     ''data: {"choices"\<newline>data: {"choices":[{"delta":{"content":"lo"}}]}\<newline>data: [DONE]\<newline>''\<close>

section \<open>Go slices\<close>

text \<open>
  \<open>conversationHistory\<close> is a slice: a pointer to an array, a length and a capacity.
  The arrays live in a memory, so that two slices can share one.  \<open>append\<close> writes in
  place when the capacity allows and moves to a new array otherwise; how much larger the
  new array is belongs to the Go runtime and is a parameter (\<open>growslice\<close>), used only
  above the length that is needed.  \<open>make\<close> returns a new zeroed array (it is called
  here with a length of at least one), \<open>copy\<close> writes the elements of the source over
  the first elements of the destination.  Addresses are numbers, given out in order;
  channels are numbered in the same way.
\<close>

record Message =
  Role :: string
  Content :: string

definition zero_Message :: Message where
  "zero_Message = \<lparr>Role = [], Content = []\<rparr>"

record slice =
  array :: nat
  len :: nat
  cap :: nat

record memory =
  arrays :: "nat \<Rightarrow> Message list option"
  next_array :: nat
  next_chan :: nat

definition contents :: "memory \<Rightarrow> slice \<Rightarrow> Message list" where
  "contents m s = (case arrays m (array s) of None \<Rightarrow> [] | Some xs \<Rightarrow> take (len s) xs)"

definition new_array :: "memory \<Rightarrow> Message list \<Rightarrow> nat \<times> memory" where
  "new_array m xs =
     (next_array m,
      m\<lparr>arrays := (arrays m)(next_array m \<mapsto> xs), next_array := Suc (next_array m)\<rparr>)"

definition append_slice ::
  "(nat \<Rightarrow> nat \<Rightarrow> nat) \<Rightarrow> memory \<Rightarrow> slice \<Rightarrow> Message \<Rightarrow> slice \<times> memory" where
  "append_slice growslice m s x =
     (if len s < cap s then
        (s\<lparr>len := Suc (len s)\<rparr>,
         (case arrays m (array s) of
            None \<Rightarrow> m
          | Some xs \<Rightarrow> m\<lparr>arrays := (arrays m)(array s \<mapsto> xs[len s := x])\<rparr>))
      else
        (let newcap = max (Suc (len s)) (growslice (cap s) (Suc (len s)));
             (a, m') = new_array m (contents m s @ [x]
                                     @ replicate (newcap - Suc (len s)) zero_Message)
         in (\<lparr>array = a, len = Suc (len s), cap = newcap\<rparr>, m')))"

definition make_slice :: "memory \<Rightarrow> nat \<Rightarrow> slice \<times> memory" where
  "make_slice m n =
     (let (a, m') = new_array m (replicate n zero_Message)
      in (\<lparr>array = a, len = n, cap = n\<rparr>, m'))"

definition copy_slice :: "memory \<Rightarrow> slice \<Rightarrow> slice \<Rightarrow> memory" where
  "copy_slice m dst src =
     (let xs = take (min (len dst) (len src)) (contents m src)
      in case arrays m (array dst) of
           None \<Rightarrow> m
         | Some ys \<Rightarrow> m\<lparr>arrays := (arrays m)(array dst \<mapsto> xs @ drop (length xs) ys)\<rparr>)"

definition make_chan :: "memory \<Rightarrow> nat \<times> memory" where
  "make_chan m = (next_chan m, m\<lparr>next_chan := Suc (next_chan m)\<rparr>)"

text \<open>
  The empty slice literal \<open>[]llm.Message{}\<close> of \<open>New\<close>: length and capacity 0, on the
  array of address 0, which is empty.
\<close>

definition empty_slice :: slice where
  "empty_slice = \<lparr>array = 0, len = 0, cap = 0\<rparr>"

definition initial_memory :: memory where
  "initial_memory = \<lparr>arrays = (\<lambda>_. None)(0 \<mapsto> []), next_array = 1, next_chan = 0\<rparr>"

text \<open>
  A slice is well formed in a memory when its array is allocated, below the next
  address, and holds at least \<open>cap\<close> elements, \<open>len\<close> of them in use.
\<close>

definition wf_slice :: "memory \<Rightarrow> slice \<Rightarrow> bool" where
  "wf_slice m s =
     (case arrays m (array s) of
        None \<Rightarrow> False
      | Some xs \<Rightarrow> array s < next_array m \<and> len s \<le> cap s \<and> cap s \<le> length xs)"

section \<open>The chat view (package ui)\<close>

subsection \<open>strings.TrimSpace\<close>

text \<open>
  \<open>strings.TrimSpace\<close> removes from both ends the code points for which
  \<open>unicode.IsSpace\<close> holds, reading the string as UTF-8: the six of ASCII, U+0085,
  U+00A0, U+1680, U+2000 to U+200A, U+2028, U+2029, U+202F, U+205F and U+3000.
  \<open>space_at_head\<close> and \<open>space_at_end\<close> are the number of bytes of such a code point at
  the head and at the end of a string, 0 when there is none.
\<close>

definition IsSpace :: "nat \<Rightarrow> bool" where
  "IsSpace r =
     ((0x09 \<le> r \<and> r \<le> 0x0D) \<or> r = 0x20 \<or> r = 0x85 \<or> r = 0xA0 \<or> r = 0x1680
      \<or> (0x2000 \<le> r \<and> r \<le> 0x200A) \<or> r = 0x2028 \<or> r = 0x2029 \<or> r = 0x202F
      \<or> r = 0x205F \<or> r = 0x3000)"

definition space2 :: "string \<Rightarrow> bool" where
  "space2 s =
     (case s of
        [a, b] \<Rightarrow> byte a = 0xC2 \<and> (byte b = 0x85 \<or> byte b = 0xA0)
      | _ \<Rightarrow> False)"

definition space3 :: "string \<Rightarrow> bool" where
  "space3 s =
     (case s of
        [a, b, c] \<Rightarrow>
          (byte a = 0xE1 \<and> byte b = 0x9A \<and> byte c = 0x80)
          \<or> (byte a = 0xE2 \<and> byte b = 0x80 \<and>
              ((0x80 \<le> byte c \<and> byte c \<le> 0x8A) \<or> byte c = 0xA8 \<or> byte c = 0xA9
               \<or> byte c = 0xAF))
          \<or> (byte a = 0xE2 \<and> byte b = 0x81 \<and> byte c = 0x9F)
          \<or> (byte a = 0xE3 \<and> byte b = 0x80 \<and> byte c = 0x80)
      | _ \<Rightarrow> False)"

definition space_at_head :: "string \<Rightarrow> nat" where
  "space_at_head s =
     (case s of
        [] \<Rightarrow> 0
      | a # _ \<Rightarrow>
          if byte a < 0x80 then (if IsSpace (byte a) then 1 else 0)
          else if space2 (take 2 s) then 2
          else if space3 (take 3 s) then 3
          else 0)"

definition space_at_end :: "string \<Rightarrow> nat" where
  "space_at_end s =
     (if s = [] then 0
      else if byte (last s) < 0x80 then (if IsSpace (byte (last s)) then 1 else 0)
      else if space2 (drop (length s - 2) s) then 2
      else if space3 (drop (length s - 3) s) then 3
      else 0)"

function TrimLeft :: "string \<Rightarrow> string" where
  "TrimLeft s = (if space_at_head s = 0 then s else TrimLeft (drop (space_at_head s) s))"
  by pat_completeness auto
termination
proof (relation "measure length")
  show "wf (measure length)" by simp
next
  fix s :: string
  assume k: "space_at_head s \<noteq> 0"
  then have "s \<noteq> []" by (auto simp: space_at_head_def)
  with k show "(drop (space_at_head s) s, s) \<in> measure length" by simp
qed

function TrimRight :: "string \<Rightarrow> string" where
  "TrimRight s =
     (if space_at_end s = 0 then s else TrimRight (take (length s - space_at_end s) s))"
  by pat_completeness auto
termination
proof (relation "measure length")
  show "wf (measure length)" by simp
next
  fix s :: string
  assume k: "space_at_end s \<noteq> 0"
  then have "s \<noteq> []" by (auto simp: space_at_end_def)
  with k show "(take (length s - space_at_end s) s, s) \<in> measure length" by simp
qed

declare TrimLeft.simps [simp del]
declare TrimRight.simps [simp del]

definition TrimSpace :: "string \<Rightarrow> string" where
  "TrimSpace s = TrimRight (TrimLeft s)"

definition HasSuffix :: "string \<Rightarrow> string \<Rightarrow> bool" where
  "HasSuffix s suffix = (length suffix \<le> length s \<and> drop (length s - length suffix) s = suffix)"

definition TrimSuffix :: "string \<Rightarrow> string \<Rightarrow> string" where
  "TrimSuffix s suffix = (if HasSuffix s suffix then take (length s - length suffix) s else s)"

text \<open>
  The claim about an empty or blank input speaks of strings that consist of white
  space only: the UTF-8 text of a list of white-space code points, possibly empty.
\<close>

definition whitespace_only :: "string \<Rightarrow> bool" where
  "whitespace_only s = (\<exists>rs. list_all IsSpace rs \<and> s = concat (map EncodeRune rs))"

subsection \<open>Messages, commands and the libraries\<close>

text \<open>
  The values of \<open>tea.Msg\<close> that \<open>App.Update\<close> and \<open>Chat.Update\<close> distinguish.  A key
  message is its \<open>String()\<close>.  The three messages of the transport are those of
  \<open>stream_msg\<close>, wrapped by \<open>llm\<close>; package ui has a \<open>StreamEndMsg\<close> and a
  \<open>StreamErrorMsg\<close> of its own.
\<close>

datatype tea_msg =
    WindowSizeMsg int int
  | KeyMsg string
  | ModelSelectedMsg string
  | PickerCancelledMsg
  | SendPromptMsg string
  | llm stream_msg
  | ui_StreamEndMsg string
  | ui_StreamErrorMsg string
  | LLMReplyMsg string
  | GenerationErrorMsg goerr
  | OtherMsg

text \<open>
  The commands that the two \<open>Update\<close> functions return: the closure that yields a
  \<open>SendPromptMsg\<close>, \<open>listenToStream\<close> on a channel, and \<open>tea.Quit\<close>.  Channels are
  numbers.  The commands that the widgets of the libraries return are left out.
\<close>

datatype cmd =
    Cmd_SendPromptMsg string
  | listenToStream nat
  | Quit

text \<open>
  What \<open>App.Update\<close> leaves behind besides the new state: the goroutine that it starts
  (\<open>StreamGenerate\<close> with the model, the history slice and the channel) and the
  commands of the batch.
\<close>

datatype effect =
    go_StreamGenerate string slice nat
  | Cmd cmd

text \<open>
  The libraries are parameters: the rendering of lipgloss styles (with the width given
  to \<open>Width\<close>, if any) and of glamour, whether \<open>glamour.NewTermRenderer\<close> succeeds, the
  text area's reaction to a key, and the growth policy of \<open>append\<close>.
\<close>

datatype style = userStyle | assistantStyle | errorStyle

record lib =
  Render :: "style \<Rightarrow> int option \<Rightarrow> string \<Rightarrow> string"
  glamour_Render :: "int \<Rightarrow> string \<Rightarrow> goerr + string"
  NewTermRenderer :: "int \<Rightarrow> bool"
  textarea_Update :: "string \<Rightarrow> string \<Rightarrow> string"
  growslice :: "nat \<Rightarrow> nat \<Rightarrow> nat"

definition Matches :: "string \<Rightarrow> string list \<Rightarrow> bool" where
  "Matches k binding = (k \<in> set binding)"

subsection \<open>Chat\<close>

text \<open>
  The fields of \<open>Chat\<close> that its methods read and write: of the history viewport its
  content and width, of the text area its value and placeholder, of the help its
  \<open>ShowAll\<close>; the glamour renderer is \<open>None\<close> for nil and else the wrap width it was made
  with.  Scrolling, heights and the cursor are left out.
\<close>

record Chat =
  history_content :: string
  history_Width :: int
  input_value :: string
  input_Placeholder :: string
  help_ShowAll :: bool
  sending :: bool
  historyBuf :: string
  assistantResponse :: string
  glamourRenderer :: "int option"
  lastGlamourWrapWidth :: int

definition sendKey :: "string list" where
  "sendKey = [''enter'']"

definition keys_Help :: "string list" where
  "keys_Help = [''ctrl-q'']"

definition SetSending :: "bool \<Rightarrow> Chat \<Rightarrow> Chat" where
  "SetSending b c =
     (let c1 = c\<lparr>sending := b\<rparr>;
          c2 = (if b then c1\<lparr>input_Placeholder := ''Assistant is thinking...'',
                              assistantResponse := []\<rparr>
                else c1\<lparr>input_Placeholder := ''Write a message'' @ [CHR 0xE2, CHR 0x80, CHR 0xA6]\<rparr>)
      in c2\<lparr>history_content := historyBuf c2\<rparr>)"

text \<open>
  The final rendering of a complete response, in the cases \<open>StreamEndMsg\<close> and
  \<open>LLMReplyMsg\<close>: by glamour when there is a renderer and it does not fail, by the
  assistant style otherwise.
\<close>

definition render_final :: "lib \<Rightarrow> Chat \<Rightarrow> int \<Rightarrow> string \<Rightarrow> string" where
  "render_final L c lipglossWrapWidth text =
     (case glamourRenderer c of
        Some w \<Rightarrow>
          (case glamour_Render L w text of
             Inl err \<Rightarrow> Render L assistantStyle (Some lipglossWrapWidth) text
           | Inr renderedMarkdown \<Rightarrow> TrimSuffix renderedMarkdown ''\<newline>'')
      | None \<Rightarrow> Render L assistantStyle (Some lipglossWrapWidth) text)"

fun Chat_Update :: "lib \<Rightarrow> tea_msg \<Rightarrow> Chat \<Rightarrow> Chat \<times> cmd list" where
  "Chat_Update L (KeyMsg m) c =
     (let lipglossWrapWidth = max (history_Width c) 80 in
      if Matches m sendKey \<and> \<not> sending c then
        (let prompt = TrimSpace (input_value c) in
         if prompt = [] then (c, [])
         else
           (let rawUserMessage = ''> '' @ prompt;
                styledAndWrappedUserMessage =
                  Render L userStyle (Some lipglossWrapWidth) rawUserMessage;
                buf = historyBuf c @ styledAndWrappedUserMessage @ ''\<newline>\<newline>''
            in (c\<lparr>historyBuf := buf, history_content := buf, input_value := []\<rparr>,
                [Cmd_SendPromptMsg prompt])))
      else if Matches m keys_Help then (c\<lparr>help_ShowAll := \<not> help_ShowAll c\<rparr>, [])
      else (c\<lparr>input_value := textarea_Update L m (input_value c)\<rparr>, []))"
| "Chat_Update L (llm (StreamChunkMsg content)) c =
     (let lipglossWrapWidth = max (history_Width c) 80;
          rawCurrentResponse = assistantResponse c @ content;
          styledAndWrappedResponse =
            Render L assistantStyle (Some lipglossWrapWidth) rawCurrentResponse
      in (c\<lparr>assistantResponse := rawCurrentResponse,
            history_content := historyBuf c @ styledAndWrappedResponse\<rparr>, []))"
| "Chat_Update L (ui_StreamEndMsg fullResponse) c =
     (let lipglossWrapWidth = max (history_Width c) 80;
          finalRendereredResponse = render_final L c lipglossWrapWidth fullResponse;
          buf = historyBuf c @ finalRendereredResponse @ ''\<newline>\<newline>''
      in (c\<lparr>historyBuf := buf, assistantResponse := [], history_content := buf\<rparr>, []))"
| "Chat_Update L (ui_StreamErrorMsg err) c =
     (let lipglossWrapWidth = max (history_Width c) 80;
          styledAndWrappedError = Render L errorStyle (Some lipglossWrapWidth) err;
          buf = historyBuf c @ styledAndWrappedError @ ''\<newline>\<newline>''
      in (c\<lparr>historyBuf := buf, assistantResponse := [], history_content := buf\<rparr>, []))"
| "Chat_Update L (LLMReplyMsg content) c =
     (let lipglossWrapWidth = max (history_Width c) 80;
          renderedResponse = render_final L c lipglossWrapWidth content;
          buf = historyBuf c @ renderedResponse @ ''\<newline>\<newline>''
      in (c\<lparr>historyBuf := buf, history_content := buf, assistantResponse := []\<rparr>, []))"
| "Chat_Update L (WindowSizeMsg Width Height) c =
     (let hPadding = 2;
          newContentWidth = max (Width - hPadding) 1;
          c1 = c\<lparr>history_Width := newContentWidth\<rparr>;
          c2 = (if newContentWidth \<noteq> lastGlamourWrapWidth c1 then
                  (if NewTermRenderer L newContentWidth
                   then c1\<lparr>glamourRenderer := Some newContentWidth,
                           lastGlamourWrapWidth := newContentWidth\<rparr>
                   else c1)
                else if glamourRenderer c1 = None then
                  (if NewTermRenderer L newContentWidth
                   then c1\<lparr>glamourRenderer := Some newContentWidth,
                           lastGlamourWrapWidth := newContentWidth\<rparr>
                   else c1)
                else c1)
      in (if sending c2 \<and> assistantResponse c2 \<noteq> [] then
            c2\<lparr>history_content :=
                  historyBuf c2
                  @ Render L assistantStyle (Some (history_Width c2)) (assistantResponse c2)\<rparr>
          else c2\<lparr>history_content := historyBuf c2\<rparr>, []))"
| "Chat_Update L _ c = (c, [])"

text \<open>
  The key case of \<open>Chat.Update\<close> as it stands in internal/ui/chat.go, where the user
  line is built from the label \<open>You\<close> and there is no help key.
\<close>

definition Chat_Update_KeyMsg_chat_go :: "lib \<Rightarrow> string \<Rightarrow> Chat \<Rightarrow> Chat \<times> cmd list" where
  "Chat_Update_KeyMsg_chat_go L m c =
     (if Matches m sendKey \<and> \<not> sending c then
        (let prompt = TrimSpace (input_value c) in
         if prompt = [] then (c, [])
         else
           (let userLabel = Render L userStyle None ''You'';
                fullMessageLine = userLabel @ '': '' @ prompt;
                buf = historyBuf c @ fullMessageLine @ ''\<newline>\<newline>''
            in (c\<lparr>historyBuf := buf, history_content := buf, input_value := []\<rparr>,
                [Cmd_SendPromptMsg prompt])))
      else (c\<lparr>input_value := textarea_Update L m (input_value c)\<rparr>, []))"

subsection \<open>App\<close>

datatype viewState = chatView | modelPickerView

text \<open>
  The fields of \<open>App\<close> without the model picker, the help and the client.  A nil
  \<open>streamChan\<close> is \<open>None\<close>.
\<close>

record App =
  width :: int
  height :: int
  activeView :: viewState
  chat :: Chat
  selectedModel :: string
  conversationHistory :: slice
  streamChan :: "nat option"
  lastError :: "goerr option"

definition quitKey :: "string list" where
  "quitKey = [''ctrl+c'']"

definition modelPickerKey :: "string list" where
  "modelPickerKey = [''ctrl+k'']"

text \<open>
  \<open>App.Update\<close> on the application and the memory of its slices.  The model picker's
  own state and commands are left out: a key in the picker view changes nothing here.
\<close>

fun App_Update :: "lib \<Rightarrow> tea_msg \<Rightarrow> App \<times> memory \<Rightarrow> (App \<times> memory) \<times> effect list" where
  "App_Update L (WindowSizeMsg w h) (a, mem) =
     (case Chat_Update L (WindowSizeMsg w h) (chat a) of
        (chatModel, chatCmd) \<Rightarrow>
          ((a\<lparr>width := w, height := h, chat := chatModel\<rparr>, mem), map Cmd chatCmd))"
| "App_Update L (KeyMsg m) (a, mem) =
     (case activeView a of
        chatView \<Rightarrow>
          if Matches m quitKey then ((a, mem), [Cmd Quit])
          else if Matches m modelPickerKey then
            (if streamChan a \<noteq> None then ((a, mem), [])
             else ((a\<lparr>activeView := modelPickerView\<rparr>, mem), []))
          else
            (case Chat_Update L (KeyMsg m) (chat a) of
               (chatModel, chatCmd) \<Rightarrow> ((a\<lparr>chat := chatModel\<rparr>, mem), map Cmd chatCmd))
      | modelPickerView \<Rightarrow> ((a, mem), []))"
| "App_Update L (ModelSelectedMsg Model) (a, mem) =
     ((a\<lparr>selectedModel := Model, activeView := chatView\<rparr>, mem), [])"
| "App_Update L PickerCancelledMsg (a, mem) = ((a\<lparr>activeView := chatView\<rparr>, mem), [])"
| "App_Update L (SendPromptMsg prompt) (a, mem) =
     (if streamChan a \<noteq> None then ((a, mem), [])
      else
        (let chat1 = SetSending True (chat a);
             model = selectedModel a;
             (history1, mem1) =
               append_slice (growslice L) mem (conversationHistory a)
                 \<lparr>Role = ''user'', Content = prompt\<rparr>;
             (historyCopy, mem2) = make_slice mem1 (len history1);
             mem3 = copy_slice mem2 historyCopy history1;
             (ch, mem4) = make_chan mem3
         in ((a\<lparr>chat := chat1, conversationHistory := history1, streamChan := Some ch\<rparr>, mem4),
             [go_StreamGenerate model historyCopy ch, Cmd (listenToStream ch)])))"
| "App_Update L (llm (StreamChunkMsg content)) (a, mem) =
     (let (a1, cmds) =
            (if activeView a = chatView then
               (case Chat_Update L (llm (StreamChunkMsg content)) (chat a) of
                  (chatModel, chatCmd) \<Rightarrow> (a\<lparr>chat := chatModel\<rparr>, chatCmd))
             else (a, []))
      in ((a1, mem),
          map Cmd (cmds @ (case streamChan a1 of
                             Some ch \<Rightarrow> [listenToStream ch]
                           | None \<Rightarrow> []))))"
| "App_Update L (llm (StreamEndMsg FullResponse)) (a, mem) =
     (let (history1, mem1) =
            append_slice (growslice L) mem (conversationHistory a)
              \<lparr>Role = ''assistant'', Content = FullResponse\<rparr>;
          a1 = a\<lparr>conversationHistory := history1\<rparr>;
          (a2, cmds) =
            (if activeView a1 = chatView then
               (case Chat_Update L (ui_StreamEndMsg FullResponse) (chat a1) of
                  (chatModel, chatCmd) \<Rightarrow>
                    (a1\<lparr>chat := SetSending False chatModel\<rparr>, chatCmd))
             else (a1, []))
      in ((a2\<lparr>streamChan := None\<rparr>, mem1), map Cmd cmds))"
| "App_Update L (llm (StreamErrorMsg Err)) (a, mem) =
     (let a1 = a\<lparr>lastError := Some (Error_text Err)\<rparr>;
          errMsg = ''assistant stream error: '' @ Error_text Err;
          (a2, cmds) =
            (if activeView a1 = chatView then
               (case Chat_Update L (ui_StreamErrorMsg errMsg) (chat a1) of
                  (chatModel, chatCmd) \<Rightarrow>
                    (a1\<lparr>chat := SetSending False chatModel\<rparr>, chatCmd))
             else (a1, []))
      in ((a2\<lparr>streamChan := None\<rparr>, mem), map Cmd cmds))"
| "App_Update L (LLMReplyMsg content) (a, mem) =
     (if activeView a = chatView then
        (case Chat_Update L (LLMReplyMsg content) (chat a) of
           (chatModel, chatCmd) \<Rightarrow>
             ((a\<lparr>chat := SetSending False chatModel\<rparr>, mem), map Cmd chatCmd))
      else ((a, mem), []))"
| "App_Update L (GenerationErrorMsg err) (a, mem) =
     (let a1 = a\<lparr>lastError := Some err\<rparr>;
          errMsg = ''Assistant Error: '' @ err
      in case Chat_Update L (LLMReplyMsg errMsg) (chat a1) of
           (chatModel, chatCmd) \<Rightarrow>
             ((a1\<lparr>chat := SetSending False chatModel\<rparr>, mem), map Cmd chatCmd))"
| "App_Update L msg (a, mem) =
     (case activeView a of
        chatView \<Rightarrow>
          (case Chat_Update L msg (chat a) of
             (chatModel, chatCmd) \<Rightarrow> ((a\<lparr>chat := chatModel\<rparr>, mem), map Cmd chatCmd))
      | modelPickerView \<Rightarrow> ((a, mem), []))"

text \<open>
  A run of the program: the messages handled one after the other, each on the state
  that the one before has left.
\<close>

fun handle_all :: "lib \<Rightarrow> tea_msg list \<Rightarrow> App \<times> memory \<Rightarrow> App \<times> memory" where
  "handle_all L [] s = s"
| "handle_all L (msg # msgs) s = handle_all L msgs (fst (App_Update L msg s))"

text \<open>
  The messages that can come between a prompt and the terminal message of its stream:
  every message but the two terminal ones of the transport.
\<close>

fun between_msg :: "tea_msg \<Rightarrow> bool" where
  "between_msg (llm (StreamEndMsg _)) = False"
| "between_msg (llm (StreamErrorMsg _)) = False"
| "between_msg _ = True"

definition conversation :: "App \<times> memory \<Rightarrow> Message list" where
  "conversation s = contents (snd s) (conversationHistory (fst s))"

definition wf_state :: "App \<times> memory \<Rightarrow> bool" where
  "wf_state s = wf_slice (snd s) (conversationHistory (fst s))"

subsection \<open>The initial state and a plain library\<close>

text \<open>
  \<open>ui.New\<close> and \<open>app.New\<close>: the chat with an empty history and input and a renderer if
  glamour gives one, the application in the chat view with the first model of the list,
  an empty history and no stream.
\<close>

definition Chat_New :: "lib \<Rightarrow> int \<Rightarrow> Chat" where
  "Chat_New L w =
     (let hPadding = 2;
          initialContentWidth = max (w - hPadding) 80
      in \<lparr>history_content = [], history_Width = initialContentWidth, input_value = [],
          input_Placeholder = ''Write a message'' @ [CHR 0xE2, CHR 0x80, CHR 0xA6],
          help_ShowAll = False, sending = False, historyBuf = [], assistantResponse = [],
          glamourRenderer =
            (if NewTermRenderer L initialContentWidth then Some initialContentWidth else None),
          lastGlamourWrapWidth = initialContentWidth\<rparr>)"

definition App_New :: "lib \<Rightarrow> App \<times> memory" where
  "App_New L =
     (\<lparr>width = 0, height = 0, activeView = chatView, chat = Chat_New L 80,
       selectedModel = ''google/gemini-2.5-flash-preview'',
       conversationHistory = empty_slice, streamChan = None, lastError = None\<rparr>,
      initial_memory)"

text \<open>
  A library for the examples: styles that render a text as it is, a glamour that adds a
  newline, a text area that ignores keys, an \<open>append\<close> that doubles the capacity.
\<close>

definition plain_lib :: lib where
  "plain_lib =
     \<lparr>Render = (\<lambda>st w s. s), glamour_Render = (\<lambda>w s. Inr (s @ ''\<newline>'')),
      NewTermRenderer = (\<lambda>w. True), textarea_Update = (\<lambda>k v. v),
      growslice = (\<lambda>c n. 2 * c)\<rparr>"

text \<open>
  The same library with a text area that puts a key of one character at the end of
  its value and ignores every other key.
\<close>

definition typing_lib :: lib where
  "typing_lib = plain_lib\<lparr>textarea_Update := (\<lambda>k v. if length k = 1 then v @ k else v)\<rparr>"

text \<open>
  A run from the initial state in which the user types \<open>hi\<close>, presses Enter and then
  ctrl+k, the \<open>SendPromptMsg\<close> of the Enter is handled after the ctrl+k, and the stream
  fails; and its continuation, in which the user leaves the picker and types \<open>ok\<close>.
\<close>

definition failed_turn_in_picker :: "App \<times> memory" where
  "failed_turn_in_picker =
     handle_all typing_lib
       [KeyMsg ''h'', KeyMsg ''i'', KeyMsg ''enter'', KeyMsg ''ctrl+k'', SendPromptMsg ''hi'',
        llm (StreamErrorMsg (HTTPFailed ''timeout''))]
       (App_New typing_lib)"

definition back_in_chat :: "App \<times> memory" where
  "back_in_chat =
     handle_all typing_lib [PickerCancelledMsg, KeyMsg ''o'', KeyMsg ''k''] failed_turn_in_picker"

text \<open>
  Two runs from the initial state: one complete turn, and the state in the middle of a
  turn.
\<close>

definition after_one_turn :: "App \<times> memory" where
  "after_one_turn =
     handle_all plain_lib [SendPromptMsg ''hi'', llm (StreamEndMsg ''Hello'')] (App_New plain_lib)"

definition in_flight :: "App \<times> memory" where
  "in_flight = handle_all plain_lib [SendPromptMsg ''hi''] (App_New plain_lib)"

text \<open>
  A chat whose input holds a space, a tab and a no-break space, and the initial
  application with that chat.
\<close>

definition blank_chat :: Chat where
  "blank_chat = (Chat_New plain_lib 80)\<lparr>input_value := concat (map EncodeRune [0x20, 0x09, 0xA0])\<rparr>"

definition blank_app :: App where
  "blank_app = (fst (App_New plain_lib))\<lparr>chat := blank_chat\<rparr>"

section \<open>Properties of the transport\<close>

subsection \<open>The loop, line by line\<close>

text \<open>
  One turn of the loop, by the kind of the line.  From here on the proofs use this
  equation in place of the defining one.
\<close>

lemma scan_loop_Cons:
  "scan_loop um ((line, pending) # rest) final seen acc =
     (case classify um line of
        Skip \<Rightarrow> scan_loop um rest final seen acc
      | Done \<Rightarrow> ([], LoopDone pending acc)
      | Bad err js \<Rightarrow>
          if seen then ([StreamErrorMsg (UnmarshalFailed err js)], LoopReturn)
          else scan_loop um rest final True acc
      | ApiErr m \<Rightarrow> ([StreamErrorMsg (APIError m)], LoopReturn)
      | Text c \<Rightarrow>
          (case scan_loop um rest final seen (acc @ c) of
             (msgs, ex) \<Rightarrow> (StreamChunkMsg c # msgs, ex)))"
  by (simp add: classify_def Let_def split: sum.splits option.splits list.splits)

declare scan_loop.simps(2) [simp del]

text \<open>
  The messages of the loop are chunks, followed by one error message if the loop is left
  by \<open>return\<close>; the text accumulated when the loop is left otherwise is the text it had
  at the start followed by the contents of the chunks.
\<close>

lemma scan_loop_shape:
  "scan_loop um steps final seen acc = (msgs, ex) \<Longrightarrow>
     (case ex of
        LoopDone e acc' \<Rightarrow> msgs = map StreamChunkMsg (texts msgs) \<and> acc' = acc @ concat (texts msgs)
      | LoopReturn \<Rightarrow> (\<exists>err. msgs = map StreamChunkMsg (texts msgs) @ [StreamErrorMsg err]))"
proof (induction steps arbitrary: seen acc msgs ex)
  case Nil
  then show ?case by (auto simp: texts_def)
next
  case (Cons x steps)
  obtain line pending where x: "x = (line, pending)" by (cases x)
  show ?case
  proof (cases "classify um line")
    case Skip
    with Cons x show ?thesis by (simp add: scan_loop_Cons)
  next
    case Done
    with Cons.prems x show ?thesis by (auto simp add: scan_loop_Cons texts_def)
  next
    case (Bad e js)
    with Cons x show ?thesis by (cases seen) (auto simp add: scan_loop_Cons texts_def)
  next
    case (ApiErr m)
    with Cons.prems x show ?thesis by (auto simp add: scan_loop_Cons texts_def)
  next
    case (Text c)
    obtain ms e where r: "scan_loop um steps final seen (acc @ c) = (ms, e)" by (cases "scan_loop um steps final seen (acc @ c)")
    from Cons.IH[OF r] Cons.prems x Text r show ?thesis
      by (auto simp add: scan_loop_Cons texts_def split: loop_exit.splits)
  qed
qed

subsection \<open>The kinds of lines, in terms of the line\<close>

lemma HasPrefix_data:
  "HasPrefix line CHUNK_PREFIX \<Longrightarrow> line \<noteq> [] \<and> \<not> HasPrefix line '':''"
  by (cases line) (auto simp: HasPrefix_def CHUNK_PREFIX_def)

lemma classify_Bad:
  "classify um line = Bad e js \<longleftrightarrow>
     malformed_line um line \<and> js = TrimPrefix line CHUNK_PREFIX \<and> um js = Inl e"
  using HasPrefix_data[of line]
  by (auto simp: classify_def malformed_line_def data_payload_def Let_def
           split: sum.splits option.splits list.splits)

lemma malformed_classify:
  "malformed_line um line \<Longrightarrow> \<exists>e. classify um line = Bad e (TrimPrefix line CHUNK_PREFIX)"
  using classify_Bad[of um line _ "TrimPrefix line CHUNK_PREFIX"]
  by (auto simp: malformed_line_def data_payload_def isl_def split: if_splits)

lemma classify_ApiErr:
  "classify um line = ApiErr m \<longleftrightarrow>
     api_error_line um line \<and>
     (\<exists>chunk e. um (TrimPrefix line CHUNK_PREFIX) = Inr chunk \<and> Error chunk = Some e \<and> m = Message e)"
  using HasPrefix_data[of line]
  by (auto simp: classify_def api_error_line_def data_payload_def Let_def
           split: sum.splits option.splits list.splits)

lemma quiet_classify:
  "quiet_line um line \<longleftrightarrow> classify um line = Skip \<or> (\<exists>c. classify um line = Text c)"
  using HasPrefix_data[of line]
  by (auto simp: quiet_line_def done_line_def malformed_line_def api_error_line_def
                 data_payload_def classify_def Let_def
           split: sum.splits option.splits list.splits)

subsection \<open>Quiet lines\<close>

text \<open>
  Quiet lines leave the flag as it is and do not end the reading: the loop on quiet
  lines followed by others is the loop on the others, started with the text that the
  quiet lines have added, after the chunks of the quiet lines.
\<close>

lemma scan_loop_quiet_append:
  "\<forall>x\<in>set pre. quiet_line um (fst x) \<Longrightarrow>
   scan_loop um pre None seen acc = (ms, ex) \<Longrightarrow>
   ex = LoopDone None (acc @ concat (texts ms)) \<and>
   scan_loop um (pre @ rest) final seen acc =
     (ms @ fst (scan_loop um rest final seen (acc @ concat (texts ms))),
      snd (scan_loop um rest final seen (acc @ concat (texts ms))))"
proof (induction pre arbitrary: acc ms ex)
  case Nil
  then show ?case by (simp add: texts_def)
next
  case (Cons x pre)
  obtain line pending where x: "x = (line, pending)" by (cases x)
  from Cons.prems(1) x have q: "quiet_line um line" and qs: "\<forall>x\<in>set pre. quiet_line um (fst x)"
    by simp_all
  from q consider "classify um line = Skip" | c where "classify um line = Text c"
    by (auto simp: quiet_classify)
  then show ?case
  proof cases
    case 1
    with Cons.IH[OF qs] Cons.prems(2) x show ?thesis
      by (simp add: scan_loop_Cons)
  next
    case 2
    obtain ms' ex' where r: "scan_loop um pre None seen (acc @ c) = (ms', ex')"
      by (cases "scan_loop um pre None seen (acc @ c)")
    from Cons.prems(2) x 2 r have ms: "ms = StreamChunkMsg c # ms'" and ex: "ex = ex'"
      by (simp_all add: scan_loop_Cons)
    from Cons.IH[OF qs r, of ] x 2 r ms ex show ?thesis
      by (simp add: scan_loop_Cons texts_def split_beta)
  qed
qed

subsection \<open>The shape of the messages of an invocation\<close>

lemma texts_simps [simp]:
  "texts [] = []"
  "texts (StreamChunkMsg c # ms) = c # texts ms"
  "texts (StreamEndMsg f # ms) = texts ms"
  "texts (StreamErrorMsg e # ms) = texts ms"
  "texts (xs @ ys) = texts xs @ texts ys"
  "texts (map StreamChunkMsg cs) = cs"
  by (simp_all add: texts_def) (induction cs, simp_all)

lemma scan_loop_cases:
  assumes "scan_loop um steps final seen acc = (msgs, ex)"
  obtains (Return) cs err where "ex = LoopReturn" "msgs = map StreamChunkMsg cs @ [StreamErrorMsg err]"
        | (Done) cs e where "ex = LoopDone e (acc @ concat cs)" "msgs = map StreamChunkMsg cs"
proof (cases ex)
  case LoopReturn
  with scan_loop_shape[OF assms]
  obtain err where "msgs = map StreamChunkMsg (texts msgs) @ [StreamErrorMsg err]" by auto
  with LoopReturn Return show ?thesis by blast
next
  case (LoopDone e acc')
  with scan_loop_shape[OF assms]
  have "msgs = map StreamChunkMsg (texts msgs)" "acc' = acc @ concat (texts msgs)" by auto
  with LoopDone Done show ?thesis by blast
qed

lemma read_stream_shape:
  "\<exists>cs t. read_stream um run = map StreamChunkMsg cs @ [t] \<and> is_terminal t \<and>
          (\<forall>full. t = StreamEndMsg full \<longrightarrow> full = concat cs)"
proof -
  obtain ms ex where r: "scan_loop um (fst run) (snd run) False [] = (ms, ex)"
    by (cases "scan_loop um (fst run) (snd run) False []")
  from r show ?thesis
  proof (cases rule: scan_loop_cases)
    case (Return cs err)
    with r show ?thesis by (auto simp: read_stream_def)
  next
    case (Done cs e)
    with r show ?thesis by (cases e) (auto simp: read_stream_def)
  qed
qed

lemma StreamGenerate_shape:
  "\<exists>cs t. fst (StreamGenerate um w) =
            (case marshal_err w of Some err \<Rightarrow> [StreamErrorMsg (MarshalFailed err)] | None \<Rightarrow> [])
            @ map StreamChunkMsg cs @ [t] \<and>
          is_terminal t \<and> (\<forall>full. t = StreamEndMsg full \<longrightarrow> full = concat cs)"
proof (cases "request_err w")
  case (Some e)
  then show ?thesis
    by (auto simp: StreamGenerate_def Let_def intro!: exI[of _ "[]"])
next
  case None
  show ?thesis
  proof (cases "do_result w")
    case (Inl e)
    with None show ?thesis by (auto simp: StreamGenerate_def Let_def intro!: exI[of _ "[]"])
  next
    case (Inr resp)
    show ?thesis
    proof (cases "StatusCode resp = 200")
      case True
      obtain cs t where "read_stream um (NewScanner (Body resp)) = map StreamChunkMsg cs @ [t]"
        "is_terminal t" "\<forall>full. t = StreamEndMsg full \<longrightarrow> full = concat cs"
        using read_stream_shape by blast
      with None Inr True show ?thesis by (auto simp: StreamGenerate_def Let_def)
    next
      case False
      with None Inr show ?thesis by (auto simp: StreamGenerate_def Let_def intro!: exI[of _ "[]"])
    qed
  qed
qed

subsection \<open>The lines that end the reading or fail to decode\<close>

lemma scan_loop_quiet:
  "\<forall>x\<in>set xs. quiet_line um (fst x) \<Longrightarrow>
   scan_loop um xs final seen acc =
     (map StreamChunkMsg (line_texts um xs), LoopDone final (acc @ concat (line_texts um xs)))"
proof (induction xs arbitrary: acc)
  case Nil
  then show ?case by (simp add: line_texts_def)
next
  case (Cons x xs)
  obtain line pending where x: "x = (line, pending)" by (cases x)
  from Cons.prems x have "classify um line = Skip \<or> (\<exists>c. classify um line = Text c)"
    by (simp add: quiet_classify)
  with Cons x show ?case
    by (auto simp add: scan_loop_Cons line_texts_def)
qed

lemma scan_loop_after_quiet:
  assumes "\<forall>x\<in>set pre. quiet_line um (fst x)"
  shows "scan_loop um (pre @ rest) final seen acc =
           (map StreamChunkMsg (line_texts um pre)
              @ fst (scan_loop um rest final seen (acc @ concat (line_texts um pre))),
            snd (scan_loop um rest final seen (acc @ concat (line_texts um pre))))"
  using scan_loop_quiet_append[OF assms scan_loop_quiet[OF assms, of None seen acc], of rest final]
  by simp

lemma read_stream_quiet:
  assumes "\<forall>x\<in>set xs. quiet_line um (fst x)"
  shows "texts (read_stream um (xs, None)) = line_texts um xs"
  by (simp add: read_stream_def scan_loop_quiet[OF assms])

lemma line_texts_append [simp]: "line_texts um (xs @ ys) = line_texts um xs @ line_texts um ys"
  by (simp add: line_texts_def)

lemma StreamGenerate_200:
  assumes "marshal_err w = None" "request_err w = None" "do_result w = Inr resp"
    "StatusCode resp = 200"
  shows "StreamGenerate um w = (read_stream um (NewScanner (Body resp)), Returned)"
  using assms by (simp add: StreamGenerate_def)

lemma scan_loop_malformed_first:
  assumes "malformed_line um line"
  shows "scan_loop um ((line, p) # rest) final False acc = scan_loop um rest final True acc"
  using malformed_classify[OF assms] by (auto simp add: scan_loop_Cons)

lemma scan_loop_malformed_second:
  assumes "data_payload line = Some js" "js \<noteq> ''[DONE]''" "um js = Inl e"
  shows "scan_loop um ((line, p) # rest) final True acc =
           ([StreamErrorMsg (UnmarshalFailed e js)], LoopReturn)"
proof -
  from assms have "classify um line = Bad e js"
    by (auto simp: classify_Bad malformed_line_def data_payload_def split: if_splits)
  then show ?thesis by (simp add: scan_loop_Cons)
qed

lemma scan_loop_api_error:
  assumes "data_payload line = Some js" "js \<noteq> ''[DONE]''" "um js = Inr chunk" "Error chunk = Some e"
  shows "scan_loop um ((line, p) # rest) final seen acc =
           ([StreamErrorMsg (APIError (Message e))], LoopReturn)"
proof -
  from assms have "classify um line = ApiErr (Message e)"
    by (auto simp: classify_ApiErr api_error_line_def data_payload_def split: if_splits)
  then show ?thesis by (simp add: scan_loop_Cons)
qed

lemma scan_loop_no_decode_error:
  "length (filter (malformed_line um) (map fst steps)) \<le> (if seen then 0 else 1) \<Longrightarrow>
   scan_loop um steps final seen acc = (ms, ex) \<Longrightarrow>
   StreamErrorMsg (UnmarshalFailed e js) \<notin> set ms"
proof (induction steps arbitrary: seen acc ms ex)
  case Nil
  then show ?case by simp
next
  case (Cons x steps)
  obtain line pending where x: "x = (line, pending)" by (cases x)
  show ?case
  proof (cases "classify um line")
    case Skip
    then have "\<not> malformed_line um line" by (auto dest: malformed_classify)
    with Cons x Skip show ?thesis by (simp add: scan_loop_Cons)
  next
    case Done
    with Cons.prems x show ?thesis by (auto simp add: scan_loop_Cons)
  next
    case (Bad e' js')
    then have m: "malformed_line um line" by (simp add: classify_Bad)
    with Cons.prems(1) x have ns: "\<not> seen"
      and c: "length (filter (malformed_line um) (map fst steps)) \<le> (if True then 0 else 1)"
      by (auto split: if_splits)
    from Cons.prems(2) x Bad ns have "scan_loop um steps final True acc = (ms, ex)"
      by (simp add: scan_loop_Cons)
    from Cons.IH[OF c this] show ?thesis .
  next
    case (ApiErr m)
    with Cons.prems x show ?thesis by (auto simp add: scan_loop_Cons)
  next
    case (Text c)
    then have nm: "\<not> malformed_line um line" by (auto dest: malformed_classify)
    obtain ms' ex' where r: "scan_loop um steps final seen (acc @ c) = (ms', ex')"
      by (cases "scan_loop um steps final seen (acc @ c)")
    from Cons.prems(1) x nm
    have c': "length (filter (malformed_line um) (map fst steps)) \<le> (if seen then 0 else 1)"
      by simp
    from Cons.IH[OF c' r] Cons.prems(2) x Text r show ?thesis
      by (auto simp add: scan_loop_Cons)
  qed
qed

lemma StreamGenerate_no_decode_error:
  assumes "malformed_count um w \<le> 1"
  shows "StreamErrorMsg (UnmarshalFailed e js) \<notin> set (fst (StreamGenerate um w))"
proof (cases "do_result w")
  case (Inl err)
  then show ?thesis
    by (auto simp: StreamGenerate_def Let_def split: option.splits)
next
  case (Inr resp)
  obtain ms ex where r:
    "scan_loop um (fst (NewScanner (Body resp))) (snd (NewScanner (Body resp))) False [] = (ms, ex)"
    by (cases "scan_loop um (fst (NewScanner (Body resp))) (snd (NewScanner (Body resp))) False []")
  from assms Inr
  have "length (filter (malformed_line um) (map fst (fst (NewScanner (Body resp)))))
          \<le> (if False then 0 else 1)"
    by (simp add: malformed_count_def)
  from scan_loop_no_decode_error[OF this r]
  have "StreamErrorMsg (UnmarshalFailed e js) \<notin> set ms" .
  with r have "StreamErrorMsg (UnmarshalFailed e js) \<notin> set (read_stream um (NewScanner (Body resp)))"
    by (auto simp: read_stream_def split: loop_exit.splits option.splits)
  with Inr show ?thesis
    by (auto simp: StreamGenerate_def Let_def split: option.splits)
qed

subsection \<open>The example responses, scanned and decoded\<close>

lemma hello_scan:
  \<open>NewScanner \<lparr>bytes = hello_body, read_err = None\<rparr> =
    ([(''data: {"choices":[{"delta":{"content":"Hel"}}]}'', None), ('''', None),
      (''data: {"choices":[{"delta":{"content":"lo"}}]}'', None), ('''', None),
      (''data: [DONE]'', None), ('''', None)], None)\<close>
  by (simp add: NewScanner_def hello_body_def MaxScanTokenSize_def dropCR_def)

lemma Unmarshal_Hel:
  \<open>Unmarshal ''{"choices":[{"delta":{"content":"Hel"}}]}'' =
     Inr (OpenRouterStreamChunk [OpenRouterStreamChoice (OpenRouterStreamDelta ''Hel'') None] None)\<close>
  by code_simp

lemma Unmarshal_lo:
  \<open>Unmarshal ''{"choices":[{"delta":{"content":"lo"}}]}'' =
     Inr (OpenRouterStreamChunk [OpenRouterStreamChoice (OpenRouterStreamDelta ''lo'') None] None)\<close>
  by code_simp

lemma Unmarshal_rate_limited:
  \<open>Unmarshal ''{"error":{"message":"rate limited"}}'' =
     Inr (OpenRouterStreamChunk [] (Some (OpenRouterResponseError ''rate limited'')))\<close>
  by code_simp

lemma Unmarshal_truncated: \<open>Unmarshal ''{"choices"'' = Inl ''invalid JSON''\<close>
  by code_simp

lemma Unmarshal_oops: \<open>Unmarshal ''oops'' = Inl ''invalid JSON''\<close>
  by code_simp

lemma api_error_scan:
  \<open>NewScanner \<lparr>bytes = api_error_body, read_err = None\<rparr> =
    ([(''data: {"choices":[{"delta":{"content":"Hel"}}]}'', None), ('''', None)]
     @ (''data: {"error":{"message":"rate limited"}}'', None)
     # [('''', None), (''data: {"choices":[{"delta":{"content":"lo"}}]}'', None), ('''', None)],
     None)\<close>
  by (simp add: NewScanner_def api_error_body_def MaxScanTokenSize_def dropCR_def)

lemma quiet_Hel: \<open>quiet_line Unmarshal ''data: {"choices":[{"delta":{"content":"Hel"}}]}''\<close>
  by (simp add: quiet_line_def done_line_def malformed_line_def api_error_line_def
        data_payload_def HasPrefix_def TrimPrefix_def CHUNK_PREFIX_def Unmarshal_Hel)

lemma quiet_blank: "quiet_line um ''''"
  by (simp add: quiet_line_def done_line_def malformed_line_def api_error_line_def
        data_payload_def HasPrefix_def CHUNK_PREFIX_def)

lemma two_bad_scan:
  \<open>NewScanner \<lparr>bytes = two_bad_body, read_err = None\<rparr> =
    ([] @ (''data: {"choices"'', None)
        # [(''data: {"choices":[{"delta":{"content":"Hel"}}]}'', None)]
        @ (''data: oops'', None)
        # [(''data: {"choices":[{"delta":{"content":"lo"}}]}'', None)], None)\<close>
  by (simp add: NewScanner_def two_bad_body_def MaxScanTokenSize_def dropCR_def)

lemma one_bad_scan:
  \<open>NewScanner \<lparr>bytes = one_bad_body, read_err = None\<rparr> =
    ([(''data: {"choices"'', None), (''data: {"choices":[{"delta":{"content":"lo"}}]}'', None),
      (''data: [DONE]'', None)], None)\<close>
  by (simp add: NewScanner_def one_bad_body_def MaxScanTokenSize_def dropCR_def)

lemma malformed_truncated: \<open>malformed_line Unmarshal ''data: {"choices"''\<close>
  by (simp add: malformed_line_def data_payload_def HasPrefix_def TrimPrefix_def CHUNK_PREFIX_def
        Unmarshal_truncated)

section \<open>The claims about the transport\<close>

text \<open>
  Claim C1 (every invocation sends exactly one terminal message, and it is the last).
  \<open>json.Marshal\<close> has no error to return for an \<open>OpenRouterRequest\<close>, so \<open>marshal_err\<close>
  is \<open>None\<close> in every invocation that the program makes.  Then, whatever
  \<open>http.NewRequestWithContext\<close>, \<open>httpClient.Do\<close>, the status and the body do, the
  messages sent on the channel are \<open>StreamChunkMsg\<close>s followed by one terminal message
  (a \<open>StreamEndMsg\<close> or a \<open>StreamErrorMsg\<close>): there is exactly one terminal message, it is
  the last message before the deferred close, and nothing follows a \<open>StreamErrorMsg\<close>.
  When \<open>http.NewRequestWithContext\<close> fails, the \<open>StreamErrorMsg\<close> of that failure is the
  only message: the function does not return after sending it, and the goroutine ends
  in the panic of \<open>req.Header.Set\<close> on the nil request before anything else is sent.
\<close>

theorem one_terminal_message:
  assumes "marshal_err w = None"
  shows "one_terminal_last (fst (StreamGenerate um w))
    \<and> (\<exists>cs t. fst (StreamGenerate um w) = map StreamChunkMsg cs @ [t] \<and> is_terminal t)
    \<and> (\<forall>pre e post. fst (StreamGenerate um w) = pre @ StreamErrorMsg e # post \<longrightarrow> post = [])
    \<and> (\<forall>err. request_err w = Some err \<longrightarrow>
          StreamGenerate um w = ([StreamErrorMsg (RequestFailed err)], Panicked))"
proof -
  from StreamGenerate_shape[of um w] assms
  obtain cs t where s: "fst (StreamGenerate um w) = map StreamChunkMsg cs @ [t]" and t: "is_terminal t"
    by auto
  have one: "one_terminal_last (fst (StreamGenerate um w))"
    using s t by (simp add: one_terminal_last_def list_all_iff)
  have nothing_after: "fst (StreamGenerate um w) = pre @ StreamErrorMsg e # post \<longrightarrow> post = []"
    for pre e post
  proof
    assume p: "fst (StreamGenerate um w) = pre @ StreamErrorMsg e # post"
    show "post = []"
    proof (rule ccontr)
      assume "post \<noteq> []"
      with p have "StreamErrorMsg e \<in> set (butlast (fst (StreamGenerate um w)))"
        by (simp add: butlast_append)
      moreover have "butlast (fst (StreamGenerate um w)) = map StreamChunkMsg cs" using s by simp
      ultimately show False by auto
    qed
  qed
  have req: "request_err w = Some err \<longrightarrow>
      StreamGenerate um w = ([StreamErrorMsg (RequestFailed err)], Panicked)" for err
    using assms by (simp add: StreamGenerate_def)
  from one s t nothing_after req show ?thesis by blast
qed

theorem one_terminal_message_witness:
  "marshal_err (world_200 hello_body) = None
   \<and> StreamGenerate Unmarshal (world_200 hello_body) =
       ([StreamChunkMsg ''Hel'', StreamChunkMsg ''lo'', StreamEndMsg ''Hello''], Returned)
   \<and> one_terminal_last (fst (StreamGenerate Unmarshal (world_200 hello_body)))
   \<and> marshal_err nil_context_world = None
   \<and> StreamGenerate Unmarshal nil_context_world =
       ([StreamErrorMsg (RequestFailed ''net/http: nil Context'')], Panicked)
   \<and> one_terminal_last (fst (StreamGenerate Unmarshal nil_context_world))"
proof -
  have m1: "marshal_err (world_200 hello_body) = None" by (simp add: world_200_def)
  have m2: "marshal_err nil_context_world = None"
    and r2: "request_err nil_context_world = Some ''net/http: nil Context''"
    by (simp_all add: nil_context_world_def world_200_def)
  have run: "StreamGenerate Unmarshal (world_200 hello_body) =
     ([StreamChunkMsg ''Hel'', StreamChunkMsg ''lo'', StreamEndMsg ''Hello''], Returned)"
    by (simp add: StreamGenerate_def world_200_def hello_scan read_stream_def
        HasPrefix_def TrimPrefix_def CHUNK_PREFIX_def Unmarshal_Hel Unmarshal_lo Let_def
        scan_loop.simps)
  from one_terminal_message[OF m1, of Unmarshal]
  have a: "one_terminal_last (fst (StreamGenerate Unmarshal (world_200 hello_body)))" by blast
  from one_terminal_message[OF m2, of Unmarshal] r2
  have b: "one_terminal_last (fst (StreamGenerate Unmarshal nil_context_world))"
    and c: "StreamGenerate Unmarshal nil_context_world =
       ([StreamErrorMsg (RequestFailed ''net/http: nil Context'')], Panicked)" by blast+
  from m1 m2 run a b c show ?thesis by blast
qed

text \<open>
  Claim C2 (chunk integrity).  If a \<open>StreamEndMsg\<close> is among the messages of an
  invocation, it is the last message, and its \<open>FullResponse\<close> is the concatenation, in
  the order of sending, of the contents of the \<open>StreamChunkMsg\<close>s of that invocation
  (the empty string when there is none).
\<close>

theorem chunk_integrity:
  assumes "StreamEndMsg full \<in> set (fst (StreamGenerate um w))"
  shows "last (fst (StreamGenerate um w)) = StreamEndMsg full \<and>
         full = concat (texts (fst (StreamGenerate um w)))"
proof -
  from StreamGenerate_shape[of um w]
  obtain cs t where s: "fst (StreamGenerate um w) =
      (case marshal_err w of Some err \<Rightarrow> [StreamErrorMsg (MarshalFailed err)] | None \<Rightarrow> [])
      @ map StreamChunkMsg cs @ [t]"
    and t: "\<forall>full. t = StreamEndMsg full \<longrightarrow> full = concat cs"
    by blast
  from assms s have "t = StreamEndMsg full" by (auto split: option.splits)
  with s t show ?thesis by (auto split: option.splits)
qed

theorem chunk_integrity_witness:
  "StreamEndMsg ''Hello'' \<in> set (fst (StreamGenerate Unmarshal (world_200 hello_body)))
   \<and> last (fst (StreamGenerate Unmarshal (world_200 hello_body))) = StreamEndMsg ''Hello''
   \<and> ''Hello'' = concat (texts (fst (StreamGenerate Unmarshal (world_200 hello_body))))"
proof -
  have run: "StreamGenerate Unmarshal (world_200 hello_body) =
     ([StreamChunkMsg ''Hel'', StreamChunkMsg ''lo'', StreamEndMsg ''Hello''], Returned)"
    by (simp add: StreamGenerate_def world_200_def hello_scan read_stream_def
        HasPrefix_def TrimPrefix_def CHUNK_PREFIX_def Unmarshal_Hel Unmarshal_lo Let_def
        scan_loop.simps)
  then have h: "StreamEndMsg ''Hello'' \<in> set (fst (StreamGenerate Unmarshal (world_200 hello_body)))"
    by simp
  from chunk_integrity[OF h] h show ?thesis by simp
qed

text \<open>
  Claim C6 (one malformed data line is tolerated).  With the flag unset, a \<open>data: \<close> line
  whose payload does not decode sends nothing, sets the flag, and the loop goes on with
  the next line.  With the flag set, such a line sends one \<open>StreamErrorMsg\<close> with the
  decoding error and the function returns, whatever follows.  For a whole response:
  when a second malformed line comes after the first, with only lines between and
  before them that neither end the reading nor fail to decode, the messages are the
  chunks of those lines, then the one decoding error.  An invocation whose body has at
  most one malformed line sends no decoding error.
\<close>

theorem decode_tolerance:
  "(malformed_line um l1 \<longrightarrow>
      scan_loop um ((l1, p1) # rest) final False acc = scan_loop um rest final True acc)
   \<and> (data_payload l2 = Some js \<and> js \<noteq> ''[DONE]'' \<and> um js = Inl e \<longrightarrow>
      scan_loop um ((l2, p2) # rest) final True acc =
        ([StreamErrorMsg (UnmarshalFailed e js)], LoopReturn))
   \<and> (marshal_err w = None \<and> request_err w = None \<and> do_result w = Inr resp \<and>
      StatusCode resp = 200 \<and>
      NewScanner (Body resp) = (pre @ (l1, p1) # mid @ (l2, p2) # rest, final) \<and>
      (\<forall>x\<in>set (pre @ mid). quiet_line um (fst x)) \<and> malformed_line um l1 \<and>
      data_payload l2 = Some js \<and> js \<noteq> ''[DONE]'' \<and> um js = Inl e \<longrightarrow>
      StreamGenerate um w =
        (map StreamChunkMsg (texts (read_stream um (pre @ mid, None)))
           @ [StreamErrorMsg (UnmarshalFailed e js)], Returned))
   \<and> (malformed_count um w' \<le> 1 \<longrightarrow>
      (\<forall>e' js'. StreamErrorMsg (UnmarshalFailed e' js') \<notin> set (fst (StreamGenerate um w'))))"
proof (intro conjI impI allI)
  assume "malformed_line um l1"
  then show "scan_loop um ((l1, p1) # rest) final False acc = scan_loop um rest final True acc"
    by (rule scan_loop_malformed_first)
next
  assume "data_payload l2 = Some js \<and> js \<noteq> ''[DONE]'' \<and> um js = Inl e"
  then show "scan_loop um ((l2, p2) # rest) final True acc =
        ([StreamErrorMsg (UnmarshalFailed e js)], LoopReturn)"
    by (intro scan_loop_malformed_second) simp_all
next
  assume a: "marshal_err w = None \<and> request_err w = None \<and> do_result w = Inr resp \<and>
      StatusCode resp = 200 \<and>
      NewScanner (Body resp) = (pre @ (l1, p1) # mid @ (l2, p2) # rest, final) \<and>
      (\<forall>x\<in>set (pre @ mid). quiet_line um (fst x)) \<and> malformed_line um l1 \<and>
      data_payload l2 = Some js \<and> js \<noteq> ''[DONE]'' \<and> um js = Inl e"
  then have qp: "\<forall>x\<in>set pre. quiet_line um (fst x)" and qm: "\<forall>x\<in>set mid. quiet_line um (fst x)"
    and q: "\<forall>x\<in>set (pre @ mid). quiet_line um (fst x)"
    by auto
  from a have m1: "malformed_line um l1" by simp
  from a have second: "scan_loop um ((l2, p2) # rest) final True
        (concat (line_texts um pre) @ concat (line_texts um mid)) =
        ([StreamErrorMsg (UnmarshalFailed e js)], LoopReturn)"
    by (intro scan_loop_malformed_second) simp_all
  have "scan_loop um (pre @ (l1, p1) # mid @ (l2, p2) # rest) final False [] =
          (map StreamChunkMsg (line_texts um (pre @ mid)) @ [StreamErrorMsg (UnmarshalFailed e js)],
           LoopReturn)"
    by (simp add: scan_loop_after_quiet[OF qp] scan_loop_malformed_first[OF m1]
          scan_loop_after_quiet[OF qm] second)
  then have "read_stream um (pre @ (l1, p1) # mid @ (l2, p2) # rest, final) =
      map StreamChunkMsg (line_texts um (pre @ mid)) @ [StreamErrorMsg (UnmarshalFailed e js)]"
    by (simp add: read_stream_def)
  then have "read_stream um (pre @ (l1, p1) # mid @ (l2, p2) # rest, final) =
      map StreamChunkMsg (texts (read_stream um (pre @ mid, None)))
           @ [StreamErrorMsg (UnmarshalFailed e js)]"
    by (simp only: read_stream_quiet[OF q])
  with a show "StreamGenerate um w =
        (map StreamChunkMsg (texts (read_stream um (pre @ mid, None)))
           @ [StreamErrorMsg (UnmarshalFailed e js)], Returned)"
    by (simp add: StreamGenerate_200)
next
  fix e' js'
  assume "malformed_count um w' \<le> 1"
  then show "StreamErrorMsg (UnmarshalFailed e' js') \<notin> set (fst (StreamGenerate um w'))"
    by (rule StreamGenerate_no_decode_error)
qed

theorem decode_tolerance_witness:
  \<open>scan_loop Unmarshal
      ((''data: {"choices"'', None) # [(''data: {"choices":[{"delta":{"content":"lo"}}]}'', None)])
      None False [] =
    scan_loop Unmarshal [(''data: {"choices":[{"delta":{"content":"lo"}}]}'', None)] None True []
   \<and> scan_loop Unmarshal
      ((''data: oops'', None) # [(''data: {"choices":[{"delta":{"content":"lo"}}]}'', None)])
      None True [] =
     ([StreamErrorMsg (UnmarshalFailed ''invalid JSON'' ''oops'')], LoopReturn)
   \<and> StreamGenerate Unmarshal (world_200 two_bad_body) =
     ([StreamChunkMsg ''Hel'', StreamErrorMsg (UnmarshalFailed ''invalid JSON'' ''oops'')],
      Returned)
   \<and> malformed_count Unmarshal (world_200 one_bad_body) = 1
   \<and> StreamGenerate Unmarshal (world_200 one_bad_body) =
     ([StreamChunkMsg ''lo'', StreamEndMsg ''lo''], Returned)
   \<and> (\<forall>e js. StreamErrorMsg (UnmarshalFailed e js)
          \<notin> set (fst (StreamGenerate Unmarshal (world_200 one_bad_body))))\<close>
proof -
  let ?bad1 = \<open>''data: {"choices"''\<close>
  let ?bad2 = \<open>''data: oops''\<close>
  let ?mid = \<open>[(''data: {"choices":[{"delta":{"content":"Hel"}}]}'', None :: goerr option)]\<close>
  let ?rest = \<open>[(''data: {"choices":[{"delta":{"content":"lo"}}]}'', None :: goerr option)]\<close>
  let ?resp = "\<lparr>StatusCode = 200, Body = \<lparr>bytes = two_bad_body, read_err = None\<rparr>\<rparr>"
  have h2: "data_payload ?bad2 = Some ''oops'' \<and> ''oops'' \<noteq> ''[DONE]''
              \<and> Unmarshal ''oops'' = Inl ''invalid JSON''"
    by (simp add: data_payload_def HasPrefix_def TrimPrefix_def CHUNK_PREFIX_def Unmarshal_oops)
  have mid: "read_stream Unmarshal ([] @ ?mid, None) = [StreamChunkMsg ''Hel'', StreamEndMsg ''Hel'']"
    by (simp add: read_stream_def scan_loop.simps HasPrefix_def TrimPrefix_def CHUNK_PREFIX_def
          Unmarshal_Hel Let_def)
  have h3: "marshal_err (world_200 two_bad_body) = None \<and>
      request_err (world_200 two_bad_body) = None \<and>
      do_result (world_200 two_bad_body) = Inr ?resp \<and> StatusCode ?resp = 200 \<and>
      NewScanner (Body ?resp) = ([] @ (?bad1, None) # ?mid @ (?bad2, None) # ?rest, None) \<and>
      (\<forall>x\<in>set ([] @ ?mid). quiet_line Unmarshal (fst x)) \<and> malformed_line Unmarshal ?bad1 \<and>
      data_payload ?bad2 = Some ''oops'' \<and> ''oops'' \<noteq> ''[DONE]''
              \<and> Unmarshal ''oops'' = Inl ''invalid JSON''"
    using h2 by (simp add: world_200_def two_bad_scan quiet_Hel malformed_truncated)
  have count: "malformed_count Unmarshal (world_200 one_bad_body) = 1"
    by (simp add: malformed_count_def world_200_def one_bad_scan
          malformed_line_def data_payload_def HasPrefix_def TrimPrefix_def CHUNK_PREFIX_def
          Unmarshal_truncated Unmarshal_lo)
  then have h4: "malformed_count Unmarshal (world_200 one_bad_body) \<le> 1" by simp
  have run: "StreamGenerate Unmarshal (world_200 one_bad_body) =
     ([StreamChunkMsg ''lo'', StreamEndMsg ''lo''], Returned)"
    by (simp add: StreamGenerate_def world_200_def one_bad_scan read_stream_def
        HasPrefix_def TrimPrefix_def CHUNK_PREFIX_def Unmarshal_truncated Unmarshal_lo Let_def
        scan_loop.simps)
  from decode_tolerance[where um = Unmarshal and ?l1.0 = ?bad1 and ?p1.0 = None
      and rest = ?rest and final = None and acc = "[]" and ?l2.0 = ?bad2 and js = "''oops''"
      and e = "''invalid JSON''" and ?p2.0 = None and w = "world_200 two_bad_body"
      and resp = ?resp and pre = "[]" and mid = ?mid and w' = "world_200 one_bad_body"]
    malformed_truncated h2 h3 h4 mid count run
  show ?thesis by simp
qed

text \<open>
  Claim C7 (an error reported in a chunk ends the stream).  When the payload of a
  \<open>data: \<close> line decodes to a chunk whose \<open>error\<close> field is not null, the loop sends
  one \<open>StreamErrorMsg\<close> with the message of that field and the function returns, in any
  state of the flag and of the accumulated text; the lines after it play no part in the
  result.  For a whole response in which only lines that neither end the reading nor
  fail to decode come before it: the messages are the chunks of those lines, then the
  error, and nothing else.
\<close>

theorem api_error_ends_stream:
  assumes "data_payload line = Some js" "js \<noteq> ''[DONE]''" "um js = Inr chunk"
    "Error chunk = Some e"
  shows "scan_loop um ((line, p) # rest) final seen acc =
           ([StreamErrorMsg (APIError (Message e))], LoopReturn)
   \<and> (marshal_err w = None \<and> request_err w = None \<and> do_result w = Inr resp \<and>
      StatusCode resp = 200 \<and> NewScanner (Body resp) = (pre @ (line, p) # rest, final) \<and>
      (\<forall>x\<in>set pre. quiet_line um (fst x)) \<longrightarrow>
      StreamGenerate um w =
        (map StreamChunkMsg (texts (read_stream um (pre, None)))
           @ [StreamErrorMsg (APIError (Message e))], Returned))"
proof (intro conjI impI)
  show "scan_loop um ((line, p) # rest) final seen acc =
           ([StreamErrorMsg (APIError (Message e))], LoopReturn)"
    using assms by (intro scan_loop_api_error) simp_all
next
  assume a: "marshal_err w = None \<and> request_err w = None \<and> do_result w = Inr resp \<and>
      StatusCode resp = 200 \<and> NewScanner (Body resp) = (pre @ (line, p) # rest, final) \<and>
      (\<forall>x\<in>set pre. quiet_line um (fst x))"
  then have qp: "\<forall>x\<in>set pre. quiet_line um (fst x)" by simp
  have here: "scan_loop um ((line, p) # rest) final False (concat (line_texts um pre)) =
           ([StreamErrorMsg (APIError (Message e))], LoopReturn)"
    using assms by (intro scan_loop_api_error) simp_all
  have "scan_loop um (pre @ (line, p) # rest) final False [] =
          (map StreamChunkMsg (line_texts um pre) @ [StreamErrorMsg (APIError (Message e))],
           LoopReturn)"
    by (simp add: scan_loop_after_quiet[OF qp] here)
  then have "read_stream um (pre @ (line, p) # rest, final) =
      map StreamChunkMsg (line_texts um pre) @ [StreamErrorMsg (APIError (Message e))]"
    by (simp add: read_stream_def)
  then have "read_stream um (pre @ (line, p) # rest, final) =
      map StreamChunkMsg (texts (read_stream um (pre, None)))
           @ [StreamErrorMsg (APIError (Message e))]"
    by (simp only: read_stream_quiet[OF qp])
  with a show "StreamGenerate um w =
        (map StreamChunkMsg (texts (read_stream um (pre, None)))
           @ [StreamErrorMsg (APIError (Message e))], Returned)"
    by (simp add: StreamGenerate_200)
qed

theorem api_error_ends_stream_witness:
  \<open>scan_loop Unmarshal
      ((''data: {"error":{"message":"rate limited"}}'', None)
       # [('''', None), (''data: {"choices":[{"delta":{"content":"lo"}}]}'', None), ('''', None)])
      None True ''Hel'' =
     ([StreamErrorMsg (APIError ''rate limited'')], LoopReturn)
   \<and> StreamGenerate Unmarshal (world_200 api_error_body) =
     ([StreamChunkMsg ''Hel'', StreamErrorMsg (APIError ''rate limited'')], Returned)\<close>
proof -
  let ?line = \<open>''data: {"error":{"message":"rate limited"}}''\<close>
  let ?js = \<open>''{"error":{"message":"rate limited"}}''\<close>
  let ?pre = \<open>[(''data: {"choices":[{"delta":{"content":"Hel"}}]}'', None), ('''', None)]\<close>
  let ?rest = \<open>[('''', None), (''data: {"choices":[{"delta":{"content":"lo"}}]}'', None), ('''', None)]\<close>
  have h1: "data_payload ?line = Some ?js"
    by (simp add: data_payload_def HasPrefix_def TrimPrefix_def CHUNK_PREFIX_def)
  have h2: "?js \<noteq> ''[DONE]''" by simp
  have h4: "Error (OpenRouterStreamChunk [] (Some (OpenRouterResponseError ''rate limited'')))
              = Some (OpenRouterResponseError ''rate limited'')" by simp
  have pre: "read_stream Unmarshal (?pre, None) = [StreamChunkMsg ''Hel'', StreamEndMsg ''Hel'']"
    by (simp add: read_stream_def scan_loop.simps HasPrefix_def TrimPrefix_def CHUNK_PREFIX_def
          Unmarshal_Hel Let_def)
  have w: "marshal_err (world_200 api_error_body) = None \<and>
      request_err (world_200 api_error_body) = None \<and>
      do_result (world_200 api_error_body) =
        Inr \<lparr>StatusCode = 200, Body = \<lparr>bytes = api_error_body, read_err = None\<rparr>\<rparr> \<and>
      StatusCode \<lparr>StatusCode = 200, Body = \<lparr>bytes = api_error_body, read_err = None\<rparr>\<rparr> = 200 \<and>
      NewScanner (Body \<lparr>StatusCode = 200, Body = \<lparr>bytes = api_error_body, read_err = None\<rparr>\<rparr>)
        = (?pre @ (?line, None) # ?rest, None) \<and>
      (\<forall>x\<in>set ?pre. quiet_line Unmarshal (fst x))"
    by (simp add: world_200_def api_error_scan quiet_Hel quiet_blank)
  from api_error_ends_stream[where um = Unmarshal and line = ?line and js = ?js
        and chunk = "OpenRouterStreamChunk [] (Some (OpenRouterResponseError ''rate limited''))"
        and e = "OpenRouterResponseError ''rate limited''"
        and p = None and rest = ?rest and final = None and seen = True and acc = "''Hel''"
        and w = "world_200 api_error_body"
        and resp = "\<lparr>StatusCode = 200, Body = \<lparr>bytes = api_error_body, read_err = None\<rparr>\<rparr>"
        and pre = ?pre, OF h1 h2 Unmarshal_rate_limited h4] w pre
  show ?thesis by simp
qed

text \<open>
  Claim C9 (the happy path).  For the status 200 and the body of three frames,
  \<open>Hel\<close>, \<open>lo\<close> and \<open>[DONE]\<close>, each followed by a blank line, the messages are
  \<open>StreamChunkMsg "Hel"\<close>, \<open>StreamChunkMsg "lo"\<close>, \<open>StreamEndMsg "Hello"\<close>, in this
  order, the function returns and the channel is closed.
\<close>

theorem happy_path:
  "StreamGenerate Unmarshal (world_200 hello_body) =
     ([StreamChunkMsg ''Hel'', StreamChunkMsg ''lo'', StreamEndMsg ''Hello''], Returned)"
  by (simp add: StreamGenerate_def world_200_def hello_scan read_stream_def
        HasPrefix_def TrimPrefix_def CHUNK_PREFIX_def Unmarshal_Hel Unmarshal_lo Let_def
        scan_loop.simps)

section \<open>Properties of the slices and of the application\<close>

subsection \<open>Slices\<close>

text \<open>
  What \<open>append\<close>, \<open>make\<close> and \<open>copy\<close> do to the slice they work on, and that they
  leave alone every well-formed slice on another array.
\<close>

declare App_Update.simps [simp del]
declare Chat_Update.simps [simp del]

lemma append_slice_result:
  assumes "wf_slice m s" "append_slice g m s x = (s', m')"
  shows "contents m' s' = contents m s @ [x]" "wf_slice m' s'"
    "next_array m \<le> next_array m'" "next_chan m' = next_chan m"
    "array s' = array s \<or> array s' = next_array m"
    "len s' = Suc (len s)"
proof -
  from assms(1) obtain xs where xs: "arrays m (array s) = Some xs"
    and b: "array s < next_array m" "len s \<le> cap s" "cap s \<le> length xs"
    by (auto simp: wf_slice_def split: option.splits)
  show "contents m' s' = contents m s @ [x]"
    using assms(2) xs b
    by (auto simp: append_slice_def contents_def new_array_def Let_def
          take_Suc_conv_app_nth split: if_splits)
  show "wf_slice m' s'"
    using assms(2) xs b
    by (auto simp: append_slice_def contents_def new_array_def Let_def wf_slice_def
          split: if_splits)
  show "next_array m \<le> next_array m'" "next_chan m' = next_chan m"
    "array s' = array s \<or> array s' = next_array m" "len s' = Suc (len s)"
    using assms(2) xs b
    by (auto simp: append_slice_def new_array_def Let_def split: if_splits)
qed

lemma append_slice_frame:
  assumes "wf_slice m s" "append_slice g m s x = (s', m')"
    "wf_slice m t" "array t \<noteq> array s"
  shows "contents m' t = contents m t" "wf_slice m' t" "array t \<noteq> array s'"
proof -
  from assms(1) obtain xs where xs: "arrays m (array s) = Some xs"
    and b: "array s < next_array m" "len s \<le> cap s" "cap s \<le> length xs"
    by (auto simp: wf_slice_def split: option.splits)
  from assms(3) obtain ys where ys: "arrays m (array t) = Some ys"
    and c: "array t < next_array m" "len t \<le> cap t" "cap t \<le> length ys"
    by (auto simp: wf_slice_def split: option.splits)
  show "contents m' t = contents m t" "wf_slice m' t" "array t \<noteq> array s'"
    using assms(2,4) xs b ys c
    by (auto simp: append_slice_def contents_def new_array_def Let_def wf_slice_def
          split: if_splits)
qed

lemma make_slice_result:
  assumes "make_slice m n = (t, m')"
  shows "array t = next_array m" "len t = n" "wf_slice m' t"
    "next_array m' = Suc (next_array m)" "next_chan m' = next_chan m"
  using assms by (auto simp: make_slice_def new_array_def wf_slice_def)

lemma make_slice_frame:
  assumes "make_slice m n = (t, m')" "wf_slice m s"
  shows "contents m' s = contents m s" "wf_slice m' s" "array s \<noteq> array t"
  using assms
  by (auto simp: make_slice_def new_array_def wf_slice_def contents_def split: option.splits)

lemma copy_slice_result:
  assumes "wf_slice m dst" "wf_slice m src" "len dst = len src" "array dst \<noteq> array src"
  shows "contents (copy_slice m dst src) dst = contents m src"
    "wf_slice (copy_slice m dst src) dst"
    "next_array (copy_slice m dst src) = next_array m"
    "next_chan (copy_slice m dst src) = next_chan m"
  using assms
  by (auto simp: copy_slice_def contents_def wf_slice_def Let_def split: option.splits)

lemma copy_slice_frame:
  assumes "wf_slice m dst" "wf_slice m t" "array t \<noteq> array dst"
  shows "contents (copy_slice m dst src) t = contents m t" "wf_slice (copy_slice m dst src) t"
  using assms
  by (auto simp: copy_slice_def contents_def wf_slice_def Let_def split: option.splits)

lemma make_chan_frame:
  assumes "make_chan m = (ch, m')"
  shows "contents m' t = contents m t" "wf_slice m' t = wf_slice m t" "ch = next_chan m"
  using assms by (auto simp: make_chan_def contents_def wf_slice_def split: option.splits)

subsection \<open>One step of App.Update\<close>

lemma App_Update_Send_idle:
  assumes wf: "wf_state (a, mem)" and idle: "streamChan a = None"
  obtains a' mem' historyCopy ch where
    "App_Update L (SendPromptMsg prompt) (a, mem) =
       ((a', mem'), [go_StreamGenerate (selectedModel a) historyCopy ch, Cmd (listenToStream ch)])"
    "conversation (a', mem') = conversation (a, mem) @ [\<lparr>Role = ''user'', Content = prompt\<rparr>]"
    "contents mem' historyCopy = conversation (a', mem')"
    "wf_state (a', mem')" "wf_slice mem' historyCopy"
    "array historyCopy \<noteq> array (conversationHistory a')"
    "a' = a\<lparr>chat := SetSending True (chat a),
             conversationHistory := conversationHistory a', streamChan := Some ch\<rparr>"
proof -
  let ?x = "\<lparr>Role = ''user'', Content = prompt\<rparr>"
  obtain h1 m1 where ap: "append_slice (growslice L) mem (conversationHistory a) ?x = (h1, m1)"
    by (cases "append_slice (growslice L) mem (conversationHistory a) ?x")
  obtain hc m2 where mk: "make_slice m1 (len h1) = (hc, m2)"
    by (cases "make_slice m1 (len h1)")
  obtain ch m4 where mc: "make_chan (copy_slice m2 hc h1) = (ch, m4)"
    by (cases "make_chan (copy_slice m2 hc h1)")
  from wf have wf0: "wf_slice mem (conversationHistory a)" by (simp add: wf_state_def)
  note r1 = append_slice_result[OF wf0 ap]
  note r2 = make_slice_result[OF mk] make_slice_frame[OF mk r1(2)]
  have ne: "array hc \<noteq> array h1" using r2 by simp
  note r3 = copy_slice_result[OF r2(3) r2(7) r2(2) ne] copy_slice_frame[OF r2(3) r2(7) ne[symmetric]]
  note r4 = make_chan_frame[OF mc]
  let ?a' = "a\<lparr>chat := SetSending True (chat a), conversationHistory := h1, streamChan := Some ch\<rparr>"
  show thesis
  proof (rule that[of ?a' m4 hc ch])
    show "App_Update L (SendPromptMsg prompt) (a, mem) =
       ((?a', m4), [go_StreamGenerate (selectedModel a) hc ch, Cmd (listenToStream ch)])"
      using idle ap mk mc by (simp add: App_Update.simps Let_def)
    show "conversation (?a', m4) = conversation (a, mem) @ [?x]"
      using r1(1) r2(6) r3 r4 by (simp add: conversation_def)
    show "contents m4 hc = conversation (?a', m4)"
      using r1(1) r2(6) r3 r4 by (simp add: conversation_def)
    show "wf_state (?a', m4)" using r3 r4 by (simp add: wf_state_def)
    show "wf_slice m4 hc" using r3 r4 by simp
    show "array hc \<noteq> array (conversationHistory ?a')" using ne by simp
    show "?a' = a\<lparr>chat := SetSending True (chat a),
             conversationHistory := conversationHistory ?a', streamChan := Some ch\<rparr>" by simp
  qed
qed

lemma App_Update_End:
  assumes wf: "wf_state (a, mem)"
  obtains a' mem' where
    "fst (App_Update L (llm (StreamEndMsg full)) (a, mem)) = (a', mem')"
    "conversation (a', mem') = conversation (a, mem) @ [\<lparr>Role = ''assistant'', Content = full\<rparr>]"
    "wf_state (a', mem')" "streamChan a' = None"
    "append_slice (growslice L) mem (conversationHistory a) \<lparr>Role = ''assistant'', Content = full\<rparr>
       = (conversationHistory a', mem')"
proof -
  let ?x = "\<lparr>Role = ''assistant'', Content = full\<rparr>"
  obtain h1 m1 where ap: "append_slice (growslice L) mem (conversationHistory a) ?x = (h1, m1)"
    by (cases "append_slice (growslice L) mem (conversationHistory a) ?x")
  from wf have wf0: "wf_slice mem (conversationHistory a)" by (simp add: wf_state_def)
  note r1 = append_slice_result[OF wf0 ap]
  define a' where "a' = fst (fst (App_Update L (llm (StreamEndMsg full)) (a, mem)))"
  have a': "fst (App_Update L (llm (StreamEndMsg full)) (a, mem)) = (a', m1)"
    and h: "conversationHistory a' = h1" and sc: "streamChan a' = None"
    using ap by (simp_all add: a'_def App_Update.simps Let_def split_beta)
  show thesis
  proof (rule that[of a' m1])
    show "fst (App_Update L (llm (StreamEndMsg full)) (a, mem)) = (a', m1)" by (rule a')
    show "conversation (a', m1) = conversation (a, mem) @ [?x]"
      using r1(1) h by (simp add: conversation_def)
    show "wf_state (a', m1)" using r1(2) h by (simp add: wf_state_def)
    show "streamChan a' = None" by (rule sc)
    show "append_slice (growslice L) mem (conversationHistory a) ?x = (conversationHistory a', m1)"
      using ap h by simp
  qed
qed

lemma App_Update_other:
  assumes "\<And>p. msg \<noteq> SendPromptMsg p" "\<And>f. msg \<noteq> llm (StreamEndMsg f)"
  shows "snd (fst (App_Update L msg (a, mem))) = mem"
    "conversationHistory (fst (fst (App_Update L msg (a, mem)))) = conversationHistory a"
  using assms
  by (cases "(L, msg, (a, mem))" rule: App_Update.cases;
      auto simp: App_Update.simps Let_def split: prod.splits viewState.splits if_splits)+

subsection \<open>White space\<close>

text \<open>
  The UTF-8 text of white-space code points is trimmed to the empty string.
\<close>

lemma byte_char_of [simp]: "byte (char_of n) = n mod 256"
  by (simp add: byte_def)

lemma IsSpace_cases:
  assumes "IsSpace r"
  shows "r \<in> {0x09, 0x0A, 0x0B, 0x0C, 0x0D, 0x20, 0x85, 0xA0, 0x1680,
               0x2000, 0x2001, 0x2002, 0x2003, 0x2004, 0x2005, 0x2006, 0x2007, 0x2008, 0x2009,
               0x200A, 0x2028, 0x2029, 0x202F, 0x205F, 0x3000}"
proof -
  from assms consider "0x09 \<le> r \<and> r \<le> 0x0D" | "0x2000 \<le> r \<and> r \<le> 0x200A"
    | "r \<in> {0x20, 0x85, 0xA0, 0x1680, 0x2028, 0x2029, 0x202F, 0x205F, 0x3000}"
    unfolding IsSpace_def by blast
  then show ?thesis
  proof cases
    case 1
    then have "r = 9 \<or> r = 10 \<or> r = 11 \<or> r = 12 \<or> r = 13" by arith
    then show ?thesis by blast
  next
    case 2
    then have "r = 0x2000 \<or> r = 0x2001 \<or> r = 0x2002 \<or> r = 0x2003 \<or> r = 0x2004 \<or> r = 0x2005
       \<or> r = 0x2006 \<or> r = 0x2007 \<or> r = 0x2008 \<or> r = 0x2009 \<or> r = 0x200A" by arith
    then show ?thesis by blast
  next
    case 3
    then show ?thesis by blast
  qed
qed

lemma space_at_head_EncodeRune:
  assumes "IsSpace r"
  shows "space_at_head (EncodeRune r @ rest) = length (EncodeRune r) \<and> EncodeRune r \<noteq> []"
  using IsSpace_cases[OF assms]
  by (elim insertE emptyE;
      simp add: EncodeRune_def space_at_head_def space2_def space3_def IsSpace_def)

lemma TrimLeft_spaces: "list_all IsSpace rs \<Longrightarrow> TrimLeft (concat (map EncodeRune rs)) = []"
proof (induction rs)
  case Nil
  show ?case by (subst TrimLeft.simps) (simp add: space_at_head_def)
next
  case (Cons r rs)
  then have r: "IsSpace r" and rs: "TrimLeft (concat (map EncodeRune rs)) = []" by simp_all
  from space_at_head_EncodeRune[OF r, of "concat (map EncodeRune rs)"] rs
  show ?case by (subst TrimLeft.simps) simp
qed

lemma TrimRight_Nil: "TrimRight [] = []"
  by (subst TrimRight.simps) (simp add: space_at_end_def)

lemma TrimSpace_whitespace_only: "whitespace_only s \<Longrightarrow> TrimSpace s = []"
  by (auto simp: whitespace_only_def TrimSpace_def TrimLeft_spaces TrimRight_Nil)

lemma Chat_Update_blank:
  assumes "TrimSpace (input_value c) = []" "\<not> sending c" "Matches m sendKey"
  shows "Chat_Update L (KeyMsg m) c = (c, [])"
    "Chat_Update_KeyMsg_chat_go L m c = (c, [])"
  using assms by (simp_all add: Chat_Update.simps Chat_Update_KeyMsg_chat_go_def)

lemma sendKey_not_app_key:
  "Matches m sendKey \<Longrightarrow> \<not> Matches m quitKey \<and> \<not> Matches m modelPickerKey"
  by (auto simp: Matches_def sendKey_def quitKey_def modelPickerKey_def)

subsection \<open>While a stream is in flight\<close>

text \<open>
  As long as \<open>streamChan\<close> is not nil, a message other than the two terminal ones leaves
  the memory, the history slice and \<open>streamChan\<close> as they are, and the chat view stays
  the active view if it was.
\<close>

lemma App_Update_busy:
  assumes "streamChan a \<noteq> None" "between_msg msg"
  shows "snd (fst (App_Update L msg (a, mem))) = mem"
    "conversationHistory (fst (fst (App_Update L msg (a, mem)))) = conversationHistory a"
    "streamChan (fst (fst (App_Update L msg (a, mem)))) = streamChan a"
    "activeView a = chatView \<Longrightarrow> activeView (fst (fst (App_Update L msg (a, mem)))) = chatView"
  using assms
  by (cases "(L, msg, (a, mem))" rule: App_Update.cases;
      auto simp: App_Update.simps Let_def split: prod.splits viewState.splits if_splits)+

lemma handle_all_append:
  "handle_all L (xs @ ys) s = handle_all L ys (handle_all L xs s)"
  by (induction xs arbitrary: s) simp_all

lemma handle_all_busy:
  assumes "list_all between_msg mid" "streamChan (fst s) \<noteq> None"
  shows "snd (handle_all L mid s) = snd s
    \<and> conversationHistory (fst (handle_all L mid s)) = conversationHistory (fst s)
    \<and> streamChan (fst (handle_all L mid s)) = streamChan (fst s)
    \<and> (activeView (fst s) = chatView \<longrightarrow> activeView (fst (handle_all L mid s)) = chatView)"
  using assms
proof (induction mid arbitrary: s)
  case Nil
  show ?case by simp
next
  case (Cons msg mid)
  obtain a mem where s: "s = (a, mem)" by (cases s)
  from Cons.prems s have b: "between_msg msg" and sc: "streamChan a \<noteq> None"
    and rest: "list_all between_msg mid" by simp_all
  note st = App_Update_busy[OF sc b, of L mem]
  from st(3) sc have "streamChan (fst (fst (App_Update L msg (a, mem)))) \<noteq> None" by simp
  from Cons.IH[OF rest this] st s show ?case by simp
qed

subsection \<open>Slices that the application does not hold\<close>

text \<open>
  A well-formed slice on another array than that of \<open>conversationHistory\<close> keeps its
  contents, and stays on another array, through every step of \<open>App.Update\<close>.
\<close>

lemma App_Update_Send_frame:
  assumes wf: "wf_state (a, mem)" and idle: "streamChan a = None"
    and t: "wf_slice mem t" "array t \<noteq> array (conversationHistory a)"
  shows "wf_slice (snd (fst (App_Update L (SendPromptMsg prompt) (a, mem)))) t"
    "array t \<noteq> array (conversationHistory (fst (fst (App_Update L (SendPromptMsg prompt) (a, mem)))))"
    "contents (snd (fst (App_Update L (SendPromptMsg prompt) (a, mem)))) t = contents mem t"
proof -
  let ?x = "\<lparr>Role = ''user'', Content = prompt\<rparr>"
  obtain h1 m1 where ap: "append_slice (growslice L) mem (conversationHistory a) ?x = (h1, m1)"
    by (cases "append_slice (growslice L) mem (conversationHistory a) ?x")
  obtain hc m2 where mk: "make_slice m1 (len h1) = (hc, m2)"
    by (cases "make_slice m1 (len h1)")
  obtain ch m4 where mc: "make_chan (copy_slice m2 hc h1) = (ch, m4)"
    by (cases "make_chan (copy_slice m2 hc h1)")
  from wf have wf0: "wf_slice mem (conversationHistory a)" by (simp add: wf_state_def)
  note f1 = append_slice_frame[OF wf0 ap t]
  note r1 = append_slice_result[OF wf0 ap]
  note f2 = make_slice_frame[OF mk f1(2)]
  note r2 = make_slice_result[OF mk]
  note f3 = copy_slice_frame[OF r2(3) f2(2) f2(3), where src = h1]
  note f4 = make_chan_frame(1,2)[OF mc, where t = t]
  have u: "fst (App_Update L (SendPromptMsg prompt) (a, mem)) =
      (a\<lparr>chat := SetSending True (chat a), conversationHistory := h1, streamChan := Some ch\<rparr>, m4)"
    using idle ap mk mc by (simp add: App_Update.simps Let_def)
  show "wf_slice (snd (fst (App_Update L (SendPromptMsg prompt) (a, mem)))) t"
    using u f3 f4 by simp
  show "array t \<noteq> array (conversationHistory (fst (fst (App_Update L (SendPromptMsg prompt) (a, mem)))))"
    using u f1 by simp
  show "contents (snd (fst (App_Update L (SendPromptMsg prompt) (a, mem)))) t = contents mem t"
    using u f1 f2 f3 f4 by simp
qed

lemma App_Update_frame:
  assumes wf: "wf_state (a, mem)"
    and t: "wf_slice mem t" "array t \<noteq> array (conversationHistory a)"
  shows "wf_state (fst (App_Update L msg (a, mem)))
    \<and> wf_slice (snd (fst (App_Update L msg (a, mem)))) t
    \<and> array t \<noteq> array (conversationHistory (fst (fst (App_Update L msg (a, mem)))))
    \<and> contents (snd (fst (App_Update L msg (a, mem)))) t = contents mem t"
proof -
  consider (send) p where "msg = SendPromptMsg p" "streamChan a = None"
    | (busy) p where "msg = SendPromptMsg p" "streamChan a \<noteq> None"
    | (endmsg) f where "msg = llm (StreamEndMsg f)"
    | (other) "\<And>p. msg \<noteq> SendPromptMsg p" "\<And>f. msg \<noteq> llm (StreamEndMsg f)"
    by (cases msg) auto
  then show ?thesis
  proof cases
    case send
    from App_Update_Send_idle[OF wf send(2), of L p]
    obtain a' mem' where "fst (App_Update L msg (a, mem)) = (a', mem')" "wf_state (a', mem')"
      using send(1) by (metis fst_conv)
    with App_Update_Send_frame[OF wf send(2) t, of L p] send(1) show ?thesis by simp
  next
    case busy
    with wf t show ?thesis by (simp add: App_Update.simps)
  next
    case endmsg
    from wf have wf0: "wf_slice mem (conversationHistory a)" by (simp add: wf_state_def)
    from App_Update_End[OF wf, of L f]
    obtain a' mem' where e: "fst (App_Update L (llm (StreamEndMsg f)) (a, mem)) = (a', mem')"
      "wf_state (a', mem')"
      "append_slice (growslice L) mem (conversationHistory a) \<lparr>Role = ''assistant'', Content = f\<rparr>
         = (conversationHistory a', mem')"
      by blast
    from append_slice_frame[OF wf0 e(3) t] e(1,2) endmsg show ?thesis by simp
  next
    case other
    note o = App_Update_other[of msg L a mem, OF other]
    from o wf t show ?thesis by (simp add: wf_state_def)
  qed
qed

lemma handle_all_frame:
  assumes "wf_state s" "wf_slice (snd s) t" "array t \<noteq> array (conversationHistory (fst s))"
  shows "wf_state (handle_all L msgs s) \<and> contents (snd (handle_all L msgs s)) t = contents (snd s) t"
  using assms
proof (induction msgs arbitrary: s)
  case Nil
  then show ?case by simp
next
  case (Cons msg msgs)
  obtain a mem where s: "s = (a, mem)" by (cases s)
  from App_Update_frame[of a mem t L msg] Cons.prems s
  have st: "wf_state (fst (App_Update L msg s))" "wf_slice (snd (fst (App_Update L msg s))) t"
    "array t \<noteq> array (conversationHistory (fst (fst (App_Update L msg s))))"
    "contents (snd (fst (App_Update L msg s))) t = contents (snd s) t"
    by simp_all
  from Cons.IH[OF st(1,2,3)] st(4) show ?case by simp
qed

subsection \<open>The start of a turn\<close>

lemma handle_all_Send:
  assumes wf: "wf_state s" and idle: "streamChan (fst s) = None"
  obtains s1 historyCopy ch where
    "App_Update L (SendPromptMsg prompt) s =
       (s1, [go_StreamGenerate (selectedModel (fst s)) historyCopy ch, Cmd (listenToStream ch)])"
    "conversation s1 = conversation s @ [\<lparr>Role = ''user'', Content = prompt\<rparr>]"
    "contents (snd s1) historyCopy = conversation s1"
    "wf_state s1" "wf_slice (snd s1) historyCopy"
    "array historyCopy \<noteq> array (conversationHistory (fst s1))"
    "streamChan (fst s1) = Some ch" "activeView (fst s1) = activeView (fst s)"
    "chat (fst s1) = SetSending True (chat (fst s))"
proof -
  obtain a mem where s: "s = (a, mem)" by (cases s)
  from wf idle s have wf': "wf_state (a, mem)" and idle': "streamChan a = None" by simp_all
  from App_Update_Send_idle[OF wf' idle', of L prompt]
  obtain a' mem' hc ch where r:
    "App_Update L (SendPromptMsg prompt) (a, mem) =
       ((a', mem'), [go_StreamGenerate (selectedModel a) hc ch, Cmd (listenToStream ch)])"
    "conversation (a', mem') = conversation (a, mem) @ [\<lparr>Role = ''user'', Content = prompt\<rparr>]"
    "contents mem' hc = conversation (a', mem')"
    "wf_state (a', mem')" "wf_slice mem' hc"
    "array hc \<noteq> array (conversationHistory a')"
    "a' = a\<lparr>chat := SetSending True (chat a),
             conversationHistory := conversationHistory a', streamChan := Some ch\<rparr>"
    by blast
  from r(7) have "streamChan a' = Some ch" "activeView a' = activeView a"
    "chat a' = SetSending True (chat a)"
    by (metis App.select_convs App.surjective App.update_convs)+
  with r s show thesis by (intro that[of "(a', mem')" hc ch]) simp_all
qed

subsection \<open>The example runs, evaluated\<close>

lemmas eval_defs =
  App_Update.simps Chat_Update.simps SetSending_def append_slice_def make_slice_def
  copy_slice_def make_chan_def new_array_def contents_def App_New_def Chat_New_def plain_lib_def
  initial_memory_def empty_slice_def Let_def conversation_def wf_state_def wf_slice_def
  Matches_def quitKey_def modelPickerKey_def sendKey_def keys_Help_def zero_Message_def
  render_final_def TrimSuffix_def HasSuffix_def

lemma after_one_turn_eval:
  "wf_state after_one_turn \<and> streamChan (fst after_one_turn) = None
   \<and> conversation after_one_turn =
       [\<lparr>Role = ''user'', Content = ''hi''\<rparr>, \<lparr>Role = ''assistant'', Content = ''Hello''\<rparr>]
   \<and> conversationHistory (fst after_one_turn) = \<lparr>array = 3, len = 2, cap = 2\<rparr>"
  by (simp add: after_one_turn_def eval_defs)

lemma in_flight_eval:
  "streamChan (fst in_flight) = Some 0 \<and> sending (chat (fst in_flight))
   \<and> conversation in_flight = [\<lparr>Role = ''user'', Content = ''hi''\<rparr>]"
  by (simp add: in_flight_def eval_defs)

lemma blank_chat_whitespace: "whitespace_only (input_value blank_chat)"
  unfolding whitespace_only_def
  by (rule exI[of _ "[0x20, 0x09, 0xA0]"]) (simp add: blank_chat_def IsSpace_def)

subsection \<open>The handler of StreamErrorMsg\<close>

lemma App_Update_Error:
  "snd (fst (App_Update L (llm (StreamErrorMsg Err)) (a, mem))) = mem"
  "conversationHistory (fst (fst (App_Update L (llm (StreamErrorMsg Err)) (a, mem))))
     = conversationHistory a"
  "streamChan (fst (fst (App_Update L (llm (StreamErrorMsg Err)) (a, mem)))) = None"
  "activeView a = chatView \<Longrightarrow>
     chat (fst (fst (App_Update L (llm (StreamErrorMsg Err)) (a, mem)))) =
       SetSending False
         (fst (Chat_Update L (ui_StreamErrorMsg (''assistant stream error: '' @ Error_text Err))
                 (chat a)))"
  "activeView a \<noteq> chatView \<Longrightarrow>
     chat (fst (fst (App_Update L (llm (StreamErrorMsg Err)) (a, mem)))) = chat a"
  by (simp_all add: App_Update.simps Let_def split_beta)

subsection \<open>Well-formed states\<close>

text \<open>
  The initial state is well formed and \<open>App.Update\<close> keeps a state well formed: the
  hypothesis \<open>wf_state\<close> of the theorems below holds in every state that the program
  reaches.
\<close>

lemma App_New_wf: "wf_state (App_New L)"
  by (simp add: App_New_def wf_state_def wf_slice_def empty_slice_def initial_memory_def)

lemma App_Update_wf:
  assumes wf: "wf_state (a, mem)"
  shows "wf_state (fst (App_Update L msg (a, mem)))"
proof -
  consider (send) p where "msg = SendPromptMsg p" "streamChan a = None"
    | (busy) p where "msg = SendPromptMsg p" "streamChan a \<noteq> None"
    | (endmsg) f where "msg = llm (StreamEndMsg f)"
    | (other) "\<And>p. msg \<noteq> SendPromptMsg p" "\<And>f. msg \<noteq> llm (StreamEndMsg f)"
    by (cases msg) auto
  then show ?thesis
  proof cases
    case send
    from App_Update_Send_idle[OF wf send(2), of L p] send(1) show ?thesis by (metis fst_conv)
  next
    case busy
    with wf show ?thesis by (simp add: App_Update.simps)
  next
    case endmsg
    from App_Update_End[OF wf, of L f] endmsg show ?thesis by metis
  next
    case other
    from App_Update_other[of msg L a mem, OF other] wf show ?thesis by (simp add: wf_state_def)
  qed
qed

lemma handle_all_wf: "wf_state s \<Longrightarrow> wf_state (handle_all L msgs s)"
proof (induction msgs arbitrary: s)
  case Nil
  then show ?case by simp
next
  case (Cons msg msgs)
  obtain a mem where "s = (a, mem)" by (cases s)
  with Cons.prems App_Update_wf[of a mem L msg] have "wf_state (fst (App_Update L msg s))" by simp
  from Cons.IH[OF this] show ?case by simp
qed

lemma reachable_wf: "wf_state (handle_all L msgs (App_New L))"
  by (rule handle_all_wf[OF App_New_wf])

subsection \<open>A failed turn\<close>

text \<open>
  From a state with no stream, a turn that ends with a \<open>StreamErrorMsg\<close> leaves in the
  history exactly the user message that the \<open>SendPromptMsg\<close> appended, and no
  assistant message; \<open>streamChan\<close> is nil again.  If the chat view is active when the
  \<open>StreamErrorMsg\<close> is handled, the handler appends the rendered error text to the
  history buffer, shows the buffer, and clears \<open>sending\<close>.  If it is not, the handler
  leaves the chat as it is.
\<close>

lemma failed_turn:
  assumes "wf_state s" "streamChan (fst s) = None" "list_all between_msg mid"
  shows "conversation (handle_all L (SendPromptMsg prompt # mid @ [llm (StreamErrorMsg Err)]) s) =
           conversation s @ [\<lparr>Role = ''user'', Content = prompt\<rparr>]
    \<and> conversation (handle_all L (SendPromptMsg prompt # mid @ [llm (StreamErrorMsg Err)]) s) =
           conversation (handle_all L [SendPromptMsg prompt] s)
    \<and> streamChan (fst (handle_all L (SendPromptMsg prompt # mid @ [llm (StreamErrorMsg Err)]) s))
         = None
    \<and> (activeView (fst (handle_all L (SendPromptMsg prompt # mid) s)) = chatView \<longrightarrow>
         \<not> sending (chat (fst (handle_all L (SendPromptMsg prompt # mid @ [llm (StreamErrorMsg Err)]) s)))
         \<and> historyBuf (chat (fst (handle_all L (SendPromptMsg prompt # mid @ [llm (StreamErrorMsg Err)]) s)))
             = historyBuf (chat (fst (handle_all L (SendPromptMsg prompt # mid) s)))
               @ Render L errorStyle
                   (Some (max (history_Width (chat (fst (handle_all L (SendPromptMsg prompt # mid) s)))) 80))
                   (''assistant stream error: '' @ Error_text Err)
               @ ''\<newline>\<newline>''
         \<and> history_content (chat (fst (handle_all L (SendPromptMsg prompt # mid @ [llm (StreamErrorMsg Err)]) s)))
             = historyBuf (chat (fst (handle_all L (SendPromptMsg prompt # mid @ [llm (StreamErrorMsg Err)]) s))))
    \<and> (activeView (fst (handle_all L (SendPromptMsg prompt # mid) s)) \<noteq> chatView \<longrightarrow>
         chat (fst (handle_all L (SendPromptMsg prompt # mid @ [llm (StreamErrorMsg Err)]) s))
           = chat (fst (handle_all L (SendPromptMsg prompt # mid) s)))
    \<and> (activeView (fst s) = chatView \<longrightarrow>
         activeView (fst (handle_all L (SendPromptMsg prompt # mid) s)) = chatView)"
proof -
  from handle_all_Send[OF assms(1,2), of L prompt]
  obtain s1 hc ch where s1: "fst (App_Update L (SendPromptMsg prompt) s) = s1"
    and c1: "conversation s1 = conversation s @ [\<lparr>Role = ''user'', Content = prompt\<rparr>]"
    and sc1: "streamChan (fst s1) = Some ch" and av1: "activeView (fst s1) = activeView (fst s)"
    by (metis fst_conv)
  from sc1 have busy: "streamChan (fst s1) \<noteq> None" by simp
  let ?s2 = "handle_all L mid s1"
  from handle_all_busy[OF assms(3) busy, of L]
  have same: "snd ?s2 = snd s1" "conversationHistory (fst ?s2) = conversationHistory (fst s1)"
    and av2: "activeView (fst s1) = chatView \<longrightarrow> activeView (fst ?s2) = chatView"
    by simp_all
  from same have c2: "conversation ?s2 = conversation s1" by (simp add: conversation_def)
  obtain a2 m2 where s2: "?s2 = (a2, m2)" by (cases ?s2)
  let ?s3 = "fst (App_Update L (llm (StreamErrorMsg Err)) (a2, m2))"
  note e = App_Update_Error[where L = L and Err = Err and a = a2 and mem = m2]
  have c3: "conversation ?s3 = conversation ?s2" using e(1,2) s2 by (simp add: conversation_def)
  have run: "handle_all L (SendPromptMsg prompt # mid @ [llm (StreamErrorMsg Err)]) s = ?s3"
    "handle_all L (SendPromptMsg prompt # mid) s = (a2, m2)"
    "handle_all L [SendPromptMsg prompt] s = s1"
    using s1 s2 by (simp_all add: handle_all_append)
  have shown: "activeView a2 = chatView \<longrightarrow>
      \<not> sending (chat (fst ?s3))
      \<and> historyBuf (chat (fst ?s3)) = historyBuf (chat a2)
           @ Render L errorStyle (Some (max (history_Width (chat a2)) 80))
               (''assistant stream error: '' @ Error_text Err) @ ''\<newline>\<newline>''
      \<and> history_content (chat (fst ?s3)) = historyBuf (chat (fst ?s3))"
  proof
    assume "activeView a2 = chatView"
    from e(4)[OF this] show "\<not> sending (chat (fst ?s3))
      \<and> historyBuf (chat (fst ?s3)) = historyBuf (chat a2)
           @ Render L errorStyle (Some (max (history_Width (chat a2)) 80))
               (''assistant stream error: '' @ Error_text Err) @ ''\<newline>\<newline>''
      \<and> history_content (chat (fst ?s3)) = historyBuf (chat (fst ?s3))"
      by (simp add: SetSending_def Chat_Update.simps Let_def)
  qed
  have hidden: "activeView a2 \<noteq> chatView \<longrightarrow> chat (fst ?s3) = chat a2"
    using e(5) by simp
  have view: "activeView (fst s) = chatView \<longrightarrow> activeView a2 = chatView"
    using av1 av2 s2 by simp
  from c1 c2 c3 e(3) shown hidden view show ?thesis unfolding run by simp
qed

text \<open>
  A turn in the chat view whose stream breaks after one chunk: the error text is in
  the history buffer and \<open>sending\<close> is cleared.
\<close>

lemma failed_turn_in_chat_view:
  "conversation
     (handle_all plain_lib
        (SendPromptMsg ''hi'' # [llm (StreamChunkMsg ''Hel'')]
         @ [llm (StreamErrorMsg (ReadFailed ''unexpected EOF''))])
        (App_New plain_lib)) = [\<lparr>Role = ''user'', Content = ''hi''\<rparr>]
   \<and> \<not> sending (chat (fst
        (handle_all plain_lib
           (SendPromptMsg ''hi'' # [llm (StreamChunkMsg ''Hel'')]
            @ [llm (StreamErrorMsg (ReadFailed ''unexpected EOF''))])
           (App_New plain_lib))))
   \<and> historyBuf (chat (fst
        (handle_all plain_lib
           (SendPromptMsg ''hi'' # [llm (StreamChunkMsg ''Hel'')]
            @ [llm (StreamErrorMsg (ReadFailed ''unexpected EOF''))])
           (App_New plain_lib)))) =
       ''assistant stream error: error reading stream: unexpected EOF\<newline>\<newline>''"
proof -
  have wf: "wf_state (App_New plain_lib)" and idle: "streamChan (fst (App_New plain_lib)) = None"
    and conv: "conversation (App_New plain_lib) = []"
    by (simp_all add: eval_defs)
  have mid: "list_all between_msg [llm (StreamChunkMsg ''Hel'')]" by simp
  have before: "historyBuf (chat (fst (handle_all plain_lib
           (SendPromptMsg ''hi'' # [llm (StreamChunkMsg ''Hel'')]) (App_New plain_lib)))) = []"
    and view: "activeView (fst (handle_all plain_lib
           (SendPromptMsg ''hi'' # [llm (StreamChunkMsg ''Hel'')]) (App_New plain_lib))) = chatView"
    by (simp_all add: eval_defs)
  have render: "Render plain_lib = (\<lambda>st w s. s)" by (simp add: plain_lib_def)
  from failed_turn[OF wf idle mid, of plain_lib "''hi''" "ReadFailed ''unexpected EOF''"]
    view conv before render
  show ?thesis by simp
qed

text \<open>The text \<open>hi\<close> has no white space to trim.\<close>

lemma TrimSpace_hi: "TrimSpace ''hi'' = ''hi''"
proof -
  have l: "TrimLeft ''hi'' = ''hi''"
    by (subst TrimLeft.simps) (simp add: space_at_head_def IsSpace_def byte_def)
  have r: "TrimRight ''hi'' = ''hi''"
    by (subst TrimRight.simps) (simp add: space_at_end_def IsSpace_def byte_def)
  from l r show ?thesis by (simp add: TrimSpace_def)
qed

section \<open>The claims about the application\<close>

text \<open>
  Claim C3 (single flight).  While \<open>streamChan\<close> is not nil, \<open>App.Update\<close> on a
  \<open>SendPromptMsg\<close> returns the application and the memory as they are and no command:
  the history keeps its messages, \<open>SetSending\<close> is not called, no channel is made and
  no \<open>StreamGenerate\<close> is started.
\<close>

theorem single_flight:
  assumes "streamChan a \<noteq> None"
  shows "App_Update L (SendPromptMsg prompt) (a, mem) = ((a, mem), [])
    \<and> conversation (fst (App_Update L (SendPromptMsg prompt) (a, mem))) = conversation (a, mem)
    \<and> sending (chat (fst (fst (App_Update L (SendPromptMsg prompt) (a, mem))))) = sending (chat a)
    \<and> next_chan (snd (fst (App_Update L (SendPromptMsg prompt) (a, mem)))) = next_chan mem"
  using assms by (simp add: App_Update.simps)

theorem single_flight_witness:
  "streamChan (fst in_flight) \<noteq> None
   \<and> App_Update plain_lib (SendPromptMsg ''again'') (fst in_flight, snd in_flight)
       = ((fst in_flight, snd in_flight), [])
   \<and> conversation (fst (App_Update plain_lib (SendPromptMsg ''again'') (fst in_flight, snd in_flight)))
       = [\<lparr>Role = ''user'', Content = ''hi''\<rparr>]"
proof -
  have h: "streamChan (fst in_flight) \<noteq> None" using in_flight_eval by simp
  from single_flight[OF h, of plain_lib "''again''" "snd in_flight"] h in_flight_eval
  show ?thesis by simp
qed

text \<open>
  Claim C4 (the shape of a successful turn).  From a state with no stream, a
  \<open>SendPromptMsg\<close> appends the user message at once; the messages that arrive before
  the terminal message of the stream (chunks, keys, resizes, further prompts) append
  nothing; the \<open>StreamEndMsg\<close> appends the assistant message with the full response.
  The history has grown by these two messages, in this order.
\<close>

theorem success_commit:
  assumes "wf_state s" "streamChan (fst s) = None" "list_all between_msg mid"
  shows "conversation (handle_all L [SendPromptMsg prompt] s) =
           conversation s @ [\<lparr>Role = ''user'', Content = prompt\<rparr>]
    \<and> conversation (handle_all L (SendPromptMsg prompt # mid) s) =
           conversation s @ [\<lparr>Role = ''user'', Content = prompt\<rparr>]
    \<and> conversation (handle_all L (SendPromptMsg prompt # mid @ [llm (StreamEndMsg FullResponse)]) s) =
           conversation s @ [\<lparr>Role = ''user'', Content = prompt\<rparr>,
                             \<lparr>Role = ''assistant'', Content = FullResponse\<rparr>]"
proof -
  from handle_all_Send[OF assms(1,2), of L prompt]
  obtain s1 hc ch where s1: "fst (App_Update L (SendPromptMsg prompt) s) = s1"
    and c1: "conversation s1 = conversation s @ [\<lparr>Role = ''user'', Content = prompt\<rparr>]"
    and wf1: "wf_state s1" and sc1: "streamChan (fst s1) = Some ch"
    by (metis fst_conv)
  from sc1 have busy: "streamChan (fst s1) \<noteq> None" by simp
  let ?s2 = "handle_all L mid s1"
  from handle_all_busy[OF assms(3) busy, of L]
  have same: "snd ?s2 = snd s1" "conversationHistory (fst ?s2) = conversationHistory (fst s1)"
    by simp_all
  then have c2: "conversation ?s2 = conversation s1" and wf2: "wf_state ?s2"
    using wf1 by (simp_all add: conversation_def wf_state_def)
  obtain a2 m2 where s2: "?s2 = (a2, m2)" by (cases ?s2)
  from wf2 s2 have wf2': "wf_state (a2, m2)" by simp
  from App_Update_End[OF wf2', of L FullResponse]
  obtain a3 m3 where "fst (App_Update L (llm (StreamEndMsg FullResponse)) (a2, m2)) = (a3, m3)"
    "conversation (a3, m3) = conversation (a2, m2) @ [\<lparr>Role = ''assistant'', Content = FullResponse\<rparr>]"
    by blast
  with s1 c1 c2 s2 show ?thesis by (simp add: handle_all_append)
qed

theorem success_commit_witness:
  "wf_state after_one_turn \<and> streamChan (fst after_one_turn) = None
   \<and> list_all between_msg
        [llm (StreamChunkMsg ''Su''), KeyMsg ''enter'', SendPromptMsg ''ignored'',
         llm (StreamChunkMsg ''re'')]
   \<and> conversation
        (handle_all plain_lib
           (SendPromptMsg ''more''
            # [llm (StreamChunkMsg ''Su''), KeyMsg ''enter'', SendPromptMsg ''ignored'',
               llm (StreamChunkMsg ''re'')]
            @ [llm (StreamEndMsg ''Sure'')])
           after_one_turn) =
       [\<lparr>Role = ''user'', Content = ''hi''\<rparr>, \<lparr>Role = ''assistant'', Content = ''Hello''\<rparr>,
        \<lparr>Role = ''user'', Content = ''more''\<rparr>, \<lparr>Role = ''assistant'', Content = ''Sure''\<rparr>]"
proof -
  have wf: "wf_state after_one_turn" and idle: "streamChan (fst after_one_turn) = None"
    using after_one_turn_eval by simp_all
  have mid: "list_all between_msg
        [llm (StreamChunkMsg ''Su''), KeyMsg ''enter'', SendPromptMsg ''ignored'',
         llm (StreamChunkMsg ''re'')]" by simp
  from success_commit[OF wf idle mid, of plain_lib "''more''" "''Sure''"] wf idle mid
    after_one_turn_eval
  show ?thesis by simp
qed

text \<open>
  Claim C5 (the shape of a failed turn): after a \<open>StreamErrorMsg\<close> the history ends
  with the user message of the turn and has no assistant message for it, and the
  handler displays the error and clears the sending indicator.  The part about the
  history holds of every failed turn (\<open>failed_turn\<close> above).  The handler displays the
  error and calls \<open>SetSending(false)\<close> only under \<open>if a.activeView == chatView\<close>, and a
  turn can be in flight in the picker view: the user types \<open>hi\<close>, presses Enter, and
  presses ctrl+k before the \<open>SendPromptMsg\<close> that the Enter produced is handled.  The
  guard of ctrl+k sees no stream yet and opens the picker; the \<open>SendPromptMsg\<close> then
  starts the turn; the stream fails.  The handler records the error in \<open>lastError\<close>,
  sets \<open>streamChan\<close> to nil, and leaves the chat as it was: \<open>sending\<close> is still set and
  the history buffer holds the user line only.  Back in the chat view the indicator
  stays, and an Enter on a new text sends no prompt, since \<open>Chat.Update\<close> sends only
  when \<open>sending\<close> is unset.  The comment of the handler (\<open>Signal sending is done (due to
  error)\<close>), the guard of ctrl+k (\<open>ensure no active stream before switching views\<close>)
  and the handler of \<open>GenerationErrorMsg\<close>, which clears the indicator in every view,
  say what the claim says: the code departs from it.
\<close>

theorem error_in_picker_view_not_shown:
  "snd (App_Update typing_lib (KeyMsg ''enter'')
          (handle_all typing_lib [KeyMsg ''h'', KeyMsg ''i''] (App_New typing_lib)))
     = [Cmd (Cmd_SendPromptMsg ''hi'')]
   \<and> activeView (fst failed_turn_in_picker) = modelPickerView
   \<and> conversation failed_turn_in_picker = [\<lparr>Role = ''user'', Content = ''hi''\<rparr>]
   \<and> streamChan (fst failed_turn_in_picker) = None
   \<and> lastError (fst failed_turn_in_picker) = Some ''stream HTTP request failed: timeout''
   \<and> sending (chat (fst failed_turn_in_picker))
   \<and> historyBuf (chat (fst failed_turn_in_picker)) = ''> hi\<newline>\<newline>''
   \<and> history_content (chat (fst failed_turn_in_picker)) = ''> hi\<newline>\<newline>''
   \<and> activeView (fst back_in_chat) = chatView
   \<and> input_value (chat (fst back_in_chat)) = ''ok''
   \<and> sending (chat (fst back_in_chat))
   \<and> history_content (chat (fst back_in_chat)) = ''> hi\<newline>\<newline>''
   \<and> App_Update typing_lib (KeyMsg ''enter'') back_in_chat = (back_in_chat, [])"
  by (simp add: back_in_chat_def failed_turn_in_picker_def eval_defs typing_lib_def TrimSpace_hi)

text \<open>
  Claim C8 (the producer's copy).  The slice handed to \<open>StreamGenerate\<close> holds the
  history as it is right after the user message is appended, on an array of its own.
  Whatever messages \<open>App.Update\<close> handles afterwards, the assistant append of
  \<open>StreamEndMsg\<close> among them, the contents of that slice stay the same.
\<close>

theorem snapshot_isolated:
  assumes "wf_state s" "streamChan (fst s) = None"
  shows "\<exists>historyCopy ch.
      snd (App_Update L (SendPromptMsg prompt) s) =
        [go_StreamGenerate (selectedModel (fst s)) historyCopy ch, Cmd (listenToStream ch)]
      \<and> contents (snd (fst (App_Update L (SendPromptMsg prompt) s))) historyCopy =
          conversation s @ [\<lparr>Role = ''user'', Content = prompt\<rparr>]
      \<and> conversation (fst (App_Update L (SendPromptMsg prompt) s)) =
          conversation s @ [\<lparr>Role = ''user'', Content = prompt\<rparr>]
      \<and> array historyCopy \<noteq> array (conversationHistory (fst (fst (App_Update L (SendPromptMsg prompt) s))))
      \<and> (\<forall>msgs. contents (snd (handle_all L msgs (fst (App_Update L (SendPromptMsg prompt) s))))
                   historyCopy =
                 conversation s @ [\<lparr>Role = ''user'', Content = prompt\<rparr>])"
proof -
  from handle_all_Send[OF assms, of L prompt]
  obtain s1 hc ch where r:
    "App_Update L (SendPromptMsg prompt) s =
       (s1, [go_StreamGenerate (selectedModel (fst s)) hc ch, Cmd (listenToStream ch)])"
    "conversation s1 = conversation s @ [\<lparr>Role = ''user'', Content = prompt\<rparr>]"
    "contents (snd s1) hc = conversation s1"
    "wf_state s1" "wf_slice (snd s1) hc"
    "array hc \<noteq> array (conversationHistory (fst s1))"
    by blast
  have "\<forall>msgs. contents (snd (handle_all L msgs s1)) hc =
          conversation s @ [\<lparr>Role = ''user'', Content = prompt\<rparr>]"
    using handle_all_frame[OF r(4,5,6), of L] r(2,3) by simp
  with r show ?thesis by auto
qed

theorem snapshot_isolated_witness:
  "\<exists>historyCopy ch.
      snd (App_Update plain_lib (SendPromptMsg ''more'') after_one_turn) =
        [go_StreamGenerate ''google/gemini-2.5-flash-preview'' historyCopy ch,
         Cmd (listenToStream ch)]
      \<and> contents
          (snd (handle_all plain_lib [llm (StreamEndMsg ''Sure'')]
                  (fst (App_Update plain_lib (SendPromptMsg ''more'') after_one_turn))))
          historyCopy =
          [\<lparr>Role = ''user'', Content = ''hi''\<rparr>, \<lparr>Role = ''assistant'', Content = ''Hello''\<rparr>,
           \<lparr>Role = ''user'', Content = ''more''\<rparr>]
      \<and> conversation
          (handle_all plain_lib [llm (StreamEndMsg ''Sure'')]
             (fst (App_Update plain_lib (SendPromptMsg ''more'') after_one_turn))) =
          [\<lparr>Role = ''user'', Content = ''hi''\<rparr>, \<lparr>Role = ''assistant'', Content = ''Hello''\<rparr>,
           \<lparr>Role = ''user'', Content = ''more''\<rparr>, \<lparr>Role = ''assistant'', Content = ''Sure''\<rparr>]"
proof -
  have wf: "wf_state after_one_turn" and idle: "streamChan (fst after_one_turn) = None"
    and conv: "conversation after_one_turn =
       [\<lparr>Role = ''user'', Content = ''hi''\<rparr>, \<lparr>Role = ''assistant'', Content = ''Hello''\<rparr>]"
    and model: "selectedModel (fst after_one_turn) = ''google/gemini-2.5-flash-preview''"
    using after_one_turn_eval by (simp_all add: after_one_turn_def eval_defs)
  have final: "conversation
          (handle_all plain_lib [llm (StreamEndMsg ''Sure'')]
             (fst (App_Update plain_lib (SendPromptMsg ''more'') after_one_turn))) =
          [\<lparr>Role = ''user'', Content = ''hi''\<rparr>, \<lparr>Role = ''assistant'', Content = ''Hello''\<rparr>,
           \<lparr>Role = ''user'', Content = ''more''\<rparr>, \<lparr>Role = ''assistant'', Content = ''Sure''\<rparr>]"
    by (simp add: after_one_turn_def eval_defs)
  from snapshot_isolated[OF wf idle, of plain_lib "''more''"]
  obtain hc ch where cmds:
    "snd (App_Update plain_lib (SendPromptMsg ''more'') after_one_turn) =
        [go_StreamGenerate (selectedModel (fst after_one_turn)) hc ch, Cmd (listenToStream ch)]"
    and later: "\<forall>msgs. contents (snd (handle_all plain_lib msgs
                (fst (App_Update plain_lib (SendPromptMsg ''more'') after_one_turn)))) hc =
         conversation after_one_turn @ [\<lparr>Role = ''user'', Content = ''more''\<rparr>]"
    by blast
  from later have inst: "contents (snd (handle_all plain_lib [llm (StreamEndMsg ''Sure'')]
                (fst (App_Update plain_lib (SendPromptMsg ''more'') after_one_turn)))) hc =
         conversation after_one_turn @ [\<lparr>Role = ''user'', Content = ''more''\<rparr>]"
    by (rule spec)
  show ?thesis
    by (rule exI[of _ hc], rule exI[of _ ch]) (simp only: cmds inst conv model final append.simps simp_thms)
qed

text \<open>
  Claim C10 (a blank prompt is not sent).  When the input consists of white space only
  (or is empty), \<open>sending\<close> is unset and the key is the send key, \<open>Chat.Update\<close> returns
  the chat as it is and no command: no \<open>SendPromptMsg\<close>, nothing appended to the history
  buffer, the input not reset.  This holds for the key case of both versions of
  \<open>Chat.Update\<close>, and \<open>App.Update\<close> in the chat view then leaves the application as it
  is.
\<close>

theorem blank_prompt_is_not_sent:
  assumes "whitespace_only (input_value c)" "\<not> sending c" "Matches m sendKey"
  shows "Chat_Update L (KeyMsg m) c = (c, [])
    \<and> Chat_Update_KeyMsg_chat_go L m c = (c, [])
    \<and> (activeView a = chatView \<and> chat a = c \<longrightarrow>
         App_Update L (KeyMsg m) (a, mem) = ((a, mem), []))"
proof -
  from assms(1) have t: "TrimSpace (input_value c) = []" by (rule TrimSpace_whitespace_only)
  note b = Chat_Update_blank[OF t assms(2,3), of L]
  from b sendKey_not_app_key[OF assms(3)]
  show ?thesis by (auto simp add: App_Update.simps)
qed

theorem blank_prompt_is_not_sent_witness:
  "whitespace_only (input_value blank_chat) \<and> \<not> sending blank_chat \<and> Matches ''enter'' sendKey
   \<and> Chat_Update plain_lib (KeyMsg ''enter'') blank_chat = (blank_chat, [])
   \<and> Chat_Update_KeyMsg_chat_go plain_lib ''enter'' blank_chat = (blank_chat, [])
   \<and> App_Update plain_lib (KeyMsg ''enter'') (blank_app, initial_memory)
       = ((blank_app, initial_memory), [])"
proof -
  have h2: "\<not> sending blank_chat" by (simp add: blank_chat_def Chat_New_def Let_def)
  have h3: "Matches ''enter'' sendKey" by (simp add: Matches_def sendKey_def)
  have h4: "activeView blank_app = chatView \<and> chat blank_app = blank_chat"
    by (simp add: blank_app_def App_New_def)
  from blank_prompt_is_not_sent[OF blank_chat_whitespace h2 h3, of plain_lib blank_app initial_memory]
    blank_chat_whitespace h2 h3 h4
  show ?thesis by simp
qed

end
